theory Spec2Isabelle
  imports Main "HOL-Library.AList"
begin

section \<open>Values, errors and the external collaborators\<close>

text \<open>
  Payloads are untyped JavaScript values (\<^verbatim>\<open>any\<close>). Only what the service code
  inspects is modelled: truthiness (\<^verbatim>\<open>if (!message)\<close>, \<^verbatim>\<open>if (error)\<close>) and
  property reads (\<^verbatim>\<open>message.body\<close>).
\<close>

datatype jsval =
    JUndefined
  | JNull
  | JBool bool
  | JNum int
  | JStr string
  | JObj "(string \<times> jsval) list"

fun truthy :: "jsval \<Rightarrow> bool" where
  "truthy JUndefined = False"
| "truthy JNull = False"
| "truthy (JBool b) = b"
| "truthy (JNum n) = (n \<noteq> 0)"
| "truthy (JStr s) = (s \<noteq> [])"
| "truthy (JObj fs) = True"

text \<open>Reading a property of a value that is already known to be truthy.\<close>

fun js_get :: "jsval \<Rightarrow> string \<Rightarrow> jsval" where
  "js_get (JObj fs) k = (case map_of fs k of None \<Rightarrow> JUndefined | Some v \<Rightarrow> v)"
| "js_get v k = JUndefined"

text \<open>
  Thrown values. \<^verbatim>\<open>Error\<close> carries its message; \<^verbatim>\<open>TypeError\<close> is what reading a
  property of \<^verbatim>\<open>undefined\<close> raises; \<^verbatim>\<open>ForbiddenException\<close> is the framework's
  exception, constructed without arguments in \<^verbatim>\<open>getMessages\<close>.
\<close>

datatype error =
    Error string
  | TypeError string
  | ForbiddenException

fun message :: "error \<Rightarrow> string" where
  "message (Error m) = m"
| "message (TypeError m) = m"
| "message ForbiddenException = ''Forbidden''"

text \<open>
  The claims of a token. The service only ever reads \<^verbatim>\<open>sub\<close>; \<open>None\<close> is an absent
  claim.
\<close>

record jwt_payload =
  sub :: "string option"

text \<open>
  What the code calls but does not define is a parameter of the model:
  the token library (\<^verbatim>\<open>jwt.sign\<close>, \<^verbatim>\<open>jwt.decode\<close>, \<^verbatim>\<open>jwt.verify\<close> with RS256), the
  codec (\<^verbatim>\<open>ZipCodec\<close>), and the process environment variable
  \<^verbatim>\<open>SERVICE_CHANNEL\<close>. \<^verbatim>\<open>jwt.decode\<close> returns \<^verbatim>\<open>null\<close> for a string that is not a
  token (\<open>None\<close>); \<^verbatim>\<open>jwt.verify\<close> throws on a bad signature, an expired or a
  malformed token (\<open>None\<close>) and returns the payload otherwise. The type \<open>'b\<close> is the
  codec's byte representation.
\<close>

record 'b env =
  jwt_sign :: "jwt_payload \<Rightarrow> string \<Rightarrow> error + string"
  jwt_decode :: "string \<Rightarrow> jwt_payload option"
  jwt_verify :: "string \<Rightarrow> string \<Rightarrow> jwt_payload option"
  encode :: "jsval \<Rightarrow> error + 'b"
  decode :: "'b \<Rightarrow> error + jsval"
  SERVICE_CHANNEL :: "string option"

text \<open>
  The Secret Store: \<^verbatim>\<open>getSecrets(path)\<close> yields a mapping of fields, or nothing
  (\<^verbatim>\<open>sec?.FIELD\<close> guards against \<^verbatim>\<open>null\<close>). A service holds
  \<^verbatim>\<open>SecretManagerBase | null\<close>, hence \<open>secret_manager option\<close> below.
\<close>

type_synonym secrets = "string \<rightharpoonup> string"
type_synonym secret_manager = "string \<Rightarrow> secrets option"

text \<open>\<^verbatim>\<open>sec?.FIELD\<close> followed by a truthiness test: the field, if present and non-empty.\<close>

definition secret_field :: "secrets option \<Rightarrow> string \<Rightarrow> string option" where
  "secret_field sec f =
     (case sec of
        None \<Rightarrow> None
      | Some m \<Rightarrow> (case m f of None \<Rightarrow> None | Some v \<Rightarrow> if v = [] then None else Some v))"

text \<open>A template literal prints an unset environment variable as \<^verbatim>\<open>undefined\<close>.\<close>

definition svc_name :: "'b env \<Rightarrow> string" where
  "svc_name e = (case SERVICE_CHANNEL e of None \<Rightarrow> ''undefined'' | Some s \<Rightarrow> s)"

section \<open>JwtValidator\<close>

text \<open>
  \<^verbatim>\<open>JwtValidator.privateKey\<close> is a static field: the cache is threaded through
  \<open>loadPrivateKey\<close> and \<open>sign\<close> explicitly. A cached empty string is falsy and
  is loaded again.
\<close>

definition loadPrivateKey ::
  "'b env \<Rightarrow> secret_manager \<Rightarrow> string option \<Rightarrow> (error + string) \<times> string option" where
  "loadPrivateKey e mgr cache =
     (case (case cache of None \<Rightarrow> None | Some k \<Rightarrow> if k = [] then None else Some k) of
        Some k \<Rightarrow> (Inr k, cache)
      | None \<Rightarrow>
          (case secret_field (mgr (''secretkey/jwt-service/'' @ svc_name e)) ''SERVICE_JWT_SECRET_KEY'' of
             None \<Rightarrow>
               (Inl (Error (''JWTValidator: no privateKey at secretkey/jwt-service/'' @ svc_name e)), cache)
           | Some k \<Rightarrow> (Inr k, Some k)))"

definition sign ::
  "'b env \<Rightarrow> secret_manager option \<Rightarrow> string option \<Rightarrow> (error + string) \<times> string option" where
  "sign e mgr cache =
     (case mgr of
        None \<Rightarrow> (Inr [], cache)
      | Some m \<Rightarrow>
          (case loadPrivateKey e m cache of
             (Inl err, cache') \<Rightarrow> (Inl err, cache')
           | (Inr key, cache') \<Rightarrow> (jwt_sign e \<lparr>sub = SERVICE_CHANNEL e\<rparr> key, cache')))"

text \<open>
  \<open>verify\<close>: the token argument is \<^verbatim>\<open>headers.get('serviceToken')\<close>, a string, or
  \<^verbatim>\<open>undefined\<close> when the message has no headers (\<open>None\<close>). The \<^verbatim>\<open>try\<close> block turns
  both a throwing \<^verbatim>\<open>jwt.verify\<close> and the \<^verbatim>\<open>sub mismatch\<close> error into the same
  error.
\<close>

definition verify ::
  "'b env \<Rightarrow> string option \<Rightarrow> secret_manager option \<Rightarrow> error + string" where
  "verify e token mgr =
     (case mgr of
        None \<Rightarrow> Inr []
      | Some m \<Rightarrow>
          (case token of
             None \<Rightarrow> Inr []
           | Some t \<Rightarrow>
               if t = [] then Inr []
               else
                 (case (case jwt_decode e t of None \<Rightarrow> None | Some d \<Rightarrow> sub d) of
                    None \<Rightarrow> Inl (Error ''JWTValidator: missing sub claim'')
                  | Some signer \<Rightarrow>
                      if signer = [] then Inl (Error ''JWTValidator: missing sub claim'')
                      else
                        (case secret_field (m (''publickey/jwt-service/'' @ signer))
                                ''SERVICE_JWT_PUBLIC_KEY'' of
                           None \<Rightarrow>
                             Inl (Error (''JWTValidator: no publicKey at publickey/jwt-service/'' @ signer))
                         | Some pk \<Rightarrow>
                             (case jwt_verify e t pk of
                                None \<Rightarrow> Inl (Error ''JWTValidator: invalid or expired token'')
                              | Some payload \<Rightarrow>
                                  if sub payload \<noteq> Some signer
                                  then Inl (Error ''JWTValidator: invalid or expired token'')
                                  else Inr signer)))))"

section \<open>NatsService\<close>

subsection \<open>State\<close>

text \<open>
  Headers are NATS message headers: \<^verbatim>\<open>append\<close> adds at the end, \<^verbatim>\<open>get\<close> returns the
  first value stored under the key, or the empty string. A message without headers has
  \<^verbatim>\<open>msg.headers === undefined\<close>.
\<close>

type_synonym hdrs = "(string \<times> string) list"

definition hdr_get :: "hdrs \<Rightarrow> string \<Rightarrow> string" where
  "hdr_get h k = (case map_of h k of None \<Rightarrow> [] | Some v \<Rightarrow> v)"

record 'b msg =
  msg_headers :: "hdrs option"
  msg_data :: 'b

text \<open>
  The options object handed to \<^verbatim>\<open>connection.publish\<close>, with the properties the service
  code sets on it. The transport's contract is
  \<^verbatim>\<open>publish(subject, bytes, {headers, reply})\<close>: an envelope takes its headers from
  \<open>opt_headers\<close> and its return address from \<open>opt_reply\<close>; any other property of
  the object is not part of a published message.
\<close>

record pub_opts =
  opt_reply :: "string option"
  opt_headers :: "hdrs option"
  opt_serviceToken :: "string option"

record 'b envelope =
  env_subject :: string
  env_data :: 'b
  env_headers :: "hdrs option"
  env_reply :: "string option"

text \<open>\<^verbatim>\<open>msg.respond(bytes, {headers})\<close> as the handler side issues it.\<close>

record 'b response =
  rsp_data :: 'b
  rsp_headers :: hdrs

text \<open>
  A promise is pending or settled; the reasons are the values the code rejects with:
  \<^verbatim>\<open>new MessageError(error, code)\<close>, the bare \<^verbatim>\<open>error\<close> of \<^verbatim>\<open>sendRawMessage\<close>, and
  \<^verbatim>\<open>new Error(text)\<close> of the timer.
\<close>

datatype reason =
    MessageError jsval jsval
  | Bare jsval
  | PlainError string

datatype outcome =
    Pending
  | Resolved jsval
  | Rejected reason

text \<open>
  The two closures stored in \<^verbatim>\<open>responseCallbacksMap\<close>, each owning the promise (by
  index) that its \<^verbatim>\<open>resolve\<close>/\<^verbatim>\<open>reject\<close> settle.
\<close>

datatype callback =
    SendCb nat
  | RawCb nat

fun owner :: "callback \<Rightarrow> nat" where
  "owner (SendCb p) = p"
| "owner (RawCb p) = p"

record timer =
  t_timeout :: int
  t_messageId :: string
  t_subject :: string
  t_promise :: nat

text \<open>What \<^verbatim>\<open>console.error\<close> received.\<close>

datatype logged =
    LogError error
  | LogText string string
  | LogString string

text \<open>Observable calls, in order: a stored callback, \<^verbatim>\<open>JwtValidator.verify\<close>, a handler.\<close>

datatype event =
    CallbackInvoked callback jsval jsval jsval
  | VerifyCalled "string option"
  | HandlerInvoked jsval

text \<open>
  The callback that \<open>init\<close> subscribes on the reply subject is \<^verbatim>\<open>async\<close>, and the
  client does not wait for it before it delivers the next message: at each \<^verbatim>\<open>await\<close>
  the call is suspended and other callbacks and timers may run. A suspended call is
  what it still needs: at \<^verbatim>\<open>await this.codec.decode(msg.data)\<close> the \<^verbatim>\<open>messageId\<close>, the
  \<^verbatim>\<open>serviceToken\<close>, the callback \<^verbatim>\<open>fn\<close> it has read from the table and the data; at
  \<^verbatim>\<open>await JwtValidator.verify(...)\<close> the \<^verbatim>\<open>messageId\<close>, \<^verbatim>\<open>fn\<close>, the decoded message
  and what \<open>verify\<close> will return or throw.
\<close>

datatype 'b continuation =
    AwaitDecode string string callback 'b
  | AwaitVerify string callback jsval "error + string"

text \<open>
  \<open>responseCallbacksMap\<close> is a JavaScript \<^verbatim>\<open>Map\<close>, kept as the list of its entries in
  insertion order (\<^verbatim>\<open>set\<close> is \<open>AList.update\<close>, \<^verbatim>\<open>delete\<close> is \<open>AList.delete\<close>,
  \<^verbatim>\<open>get\<close> is \<open>map_of\<close>). \<open>races\<close> holds, for each \<^verbatim>\<open>Promise.race\<close>, the pairs
  (input promise, race promise). \<open>unhandled\<close> collects the errors thrown inside an
  \<^verbatim>\<open>async\<close> function whose promise nobody observes (the executor of
  \<^verbatim>\<open>new Promise(async ...)\<close>, a subscription callback). \<open>connected\<close> is whether
  the connection is open: \<^verbatim>\<open>connection.publish\<close> and \<^verbatim>\<open>connection.subscribe\<close> throw on
  a closed one. \<open>subscriptions\<close> are the subjects \<open>subscribe\<close> has opened, and
  \<open>suspended\<close> the calls of the reply callback that wait at an \<^verbatim>\<open>await\<close>.
\<close>

record 'b nats =
  replySubject :: string
  responseCallbacksMap :: "(string \<times> callback) list"
  availableEvents :: "string list option"
  secretManager :: "secret_manager option"
  privateKey :: "string option"
  connected :: bool
  published :: "'b envelope list"
  responses :: "'b response list"
  promises :: "outcome list"
  races :: "(nat \<times> nat) list"
  timers :: "timer list"
  console :: "logged list"
  unhandled :: "error list"
  events :: "event list"
  subscriptions :: "string list"
  suspended :: "'b continuation list"

subsection \<open>Promises\<close>

definition new_promise :: "'b nats \<Rightarrow> nat \<times> 'b nats" where
  "new_promise s = (length (promises s), s\<lparr>promises := promises s @ [Pending]\<rparr>)"

text \<open>A race promise takes the outcome of the first of its inputs to settle.\<close>

fun adopt :: "(nat \<times> nat) list \<Rightarrow> nat \<Rightarrow> outcome \<Rightarrow> outcome list \<Rightarrow> outcome list" where
  "adopt [] p out ps = ps"
| "adopt ((src, r) # rs) p out ps =
     adopt rs p out (if src = p \<and> r < length ps \<and> ps ! r = Pending then ps[r := out] else ps)"

text \<open>\<^verbatim>\<open>resolve\<close>/\<^verbatim>\<open>reject\<close>: the first call settles the promise, later calls do nothing.\<close>

definition settle :: "nat \<Rightarrow> outcome \<Rightarrow> 'b nats \<Rightarrow> 'b nats" where
  "settle p out s =
     (if p < length (promises s) \<and> promises s ! p = Pending
      then s\<lparr>promises := adopt (races s) p out ((promises s)[p := out])\<rparr>
      else s)"

fun promise_race :: "nat list \<Rightarrow> 'b nats \<Rightarrow> nat \<times> 'b nats" where
  "promise_race srcs s =
     (let (r, s1) = new_promise s;
          first = filter (\<lambda>p. p < length (promises s1) \<and> promises s1 ! p \<noteq> Pending) srcs;
          s2 = (case first of [] \<Rightarrow> s1 | p # _ \<Rightarrow> s1\<lparr>promises := (promises s1)[r := promises s1 ! p]\<rparr>)
      in (r, s2\<lparr>races := races s2 @ map (\<lambda>p. (p, r)) srcs\<rparr>))"

text \<open>Calling an entry of \<^verbatim>\<open>responseCallbacksMap\<close> as \<^verbatim>\<open>fn(body, error, code)\<close>.\<close>

fun invoke :: "callback \<Rightarrow> jsval \<Rightarrow> jsval \<Rightarrow> jsval \<Rightarrow> 'b nats \<Rightarrow> 'b nats" where
  "invoke (SendCb p) body err code s =
     (let s' = s\<lparr>events := events s @ [CallbackInvoked (SendCb p) body err code]\<rparr>
      in if truthy err then settle p (Rejected (MessageError err code)) s'
         else settle p (Resolved body) s')"
| "invoke (RawCb p) body err code s =
     (let s' = s\<lparr>events := events s @ [CallbackInvoked (RawCb p) body err code]\<rparr>
      in if truthy err then settle p (Rejected (Bare err)) s'
         else settle p (Resolved body) s')"

subsection \<open>Sending\<close>

text \<open>\<^verbatim>\<open>connection.publish(subject, bytes, opts)\<close>; it throws on a closed connection.\<close>

definition connection_publish ::
  "string \<Rightarrow> 'b \<Rightarrow> pub_opts \<Rightarrow> 'b nats \<Rightarrow> (error + unit) \<times> 'b nats" where
  "connection_publish subject bytes opts s =
     (if connected s
      then (Inr (),
            s\<lparr>published := published s @
                 [\<lparr>env_subject = subject, env_data = bytes,
                   env_headers = opt_headers opts, env_reply = opt_reply opts\<rparr>]\<rparr>)
      else (Inl (Error ''CONNECTION_CLOSED''), s))"

text \<open>
  \<open>publish\<close> is an \<^verbatim>\<open>async\<close> method: an error is the rejection of the promise it
  returns (\<open>Inl\<close>). It builds \<^verbatim>\<open>opts = {serviceToken: token}\<close> and adds
  \<^verbatim>\<open>opts.reply\<close> for a truthy \<^verbatim>\<open>replySubject\<close>.
\<close>

definition publish ::
  "'b env \<Rightarrow> string \<Rightarrow> jsval \<Rightarrow> string option \<Rightarrow> 'b nats \<Rightarrow> (error + unit) \<times> 'b nats" where
  "publish e subject data reply s =
     (case sign e (secretManager s) (privateKey s) of
        (Inl err, c) \<Rightarrow> (Inl err, s\<lparr>privateKey := c\<rparr>)
      | (Inr token, c) \<Rightarrow>
          (let s1 = s\<lparr>privateKey := c\<rparr>;
               opts = \<lparr>opt_reply = (case reply of None \<Rightarrow> None
                                     | Some r \<Rightarrow> if r = [] then None else Some r),
                       opt_headers = None,
                       opt_serviceToken = Some token\<rparr>
           in case encode e data of
                Inl err \<Rightarrow> (Inl err, s1)
              | Inr bytes \<Rightarrow> connection_publish subject bytes opts s1))"

text \<open>
  \<open>subscribe\<close>: the allow-list check, then \<^verbatim>\<open>this.connection.subscribe(subject)\<close>,
  which throws on a closed connection. \<open>subscribe_message\<close> is the body of the loop
  \<^verbatim>\<open>for await (const m of _sub)\<close> for one message: whatever the \<^verbatim>\<open>try\<close> block throws
  is logged by its message; the handler is an asynchronous function that the loop does
  not await.
\<close>

definition subscribe :: "string \<Rightarrow> 'b nats \<Rightarrow> (error + unit) \<times> 'b nats" where
  "subscribe subject s =
     (if (case availableEvents s of None \<Rightarrow> False | Some ae \<Rightarrow> subject \<notin> set ae)
      then (Inl (Error (''NATS ACL: subscription to '' @ [CHR 0x22] @ subject @ [CHR 0x22]
                         @ '' not allowed'')), s)
      else if connected s
      then (Inr (), s\<lparr>subscriptions := subscriptions s @ [subject]\<rparr>)
      else (Inl (Error ''CONNECTION_CLOSED''), s))"

text \<open>What reading \<^verbatim>\<open>msg.headers.get\<close> raises when \<^verbatim>\<open>msg.headers\<close> is \<^verbatim>\<open>undefined\<close>.\<close>

definition headers_undefined :: error where
  "headers_undefined =
     TypeError (''Cannot read properties of undefined (reading '' @ [CHR 0x27] @ ''get''
                @ [CHR 0x27] @ '')'')"

definition subscribe_message ::
  "'b env \<Rightarrow> (jsval \<Rightarrow> hdrs option \<Rightarrow> error + jsval) \<Rightarrow> 'b msg \<Rightarrow> 'b nats \<Rightarrow> 'b nats" where
  "subscribe_message e cb m s =
     (case msg_headers m of
        None \<Rightarrow> s\<lparr>console := console s @ [LogString (message headers_undefined)]\<rparr>
      | Some h \<Rightarrow>
          (let serviceToken = hdr_get h ''serviceToken'';
               s1 = s\<lparr>events := events s @ [VerifyCalled (Some serviceToken)]\<rparr>
           in case verify e (Some serviceToken) (secretManager s) of
                Inl er \<Rightarrow> s1\<lparr>console := console s1 @ [LogString (message er)]\<rparr>
              | Inr signer \<Rightarrow>
                  (case decode e (msg_data m) of
                     Inl er \<Rightarrow> s1\<lparr>console := console s1 @ [LogString (message er)]\<rparr>
                   | Inr d \<Rightarrow>
                       (let s2 = s1\<lparr>events := events s1 @ [HandlerInvoked d]\<rparr>
                        in case cb d None of
                             Inl er \<Rightarrow> s2\<lparr>unhandled := unhandled s2 @ [er]\<rparr>
                           | Inr r \<Rightarrow> s2))))"

text \<open>
  \<^verbatim>\<open>new Promise(async (resolve, reject) => ...)\<close>: the executor is an \<^verbatim>\<open>async\<close>
  function, so what it throws rejects the executor's own promise, which nothing
  observes; \<^verbatim>\<open>reject\<close> of the promise under construction is not called. An executor
  is modelled as one step.
\<close>

definition async_unobserved :: "(error + unit) \<times> 'b nats \<Rightarrow> 'b nats" where
  "async_unobserved r =
     (case r of
        (Inl err, s) \<Rightarrow> s\<lparr>unhandled := unhandled s @ [err]\<rparr>
      | (Inr u, s) \<Rightarrow> s)"

text \<open>The executor of \<open>sendMessage\<close>, for the promise \<open>p\<close> being constructed.\<close>

definition sendMessage_executor ::
  "'b env \<Rightarrow> string \<Rightarrow> jsval \<Rightarrow> bool \<Rightarrow> string \<Rightarrow> nat \<Rightarrow> 'b nats \<Rightarrow> (error + unit) \<times> 'b nats" where
  "sendMessage_executor e subject data isResponseCallback messageId p s =
     (let head = [(''messageId'', messageId)];
          s1 = (if isResponseCallback
                then s\<lparr>responseCallbacksMap :=
                         AList.update messageId (SendCb p) (responseCallbacksMap s)\<rparr>
                else settle p (Resolved JNull) s)
      in case sign e (secretManager s1) (privateKey s1) of
           (Inl err, c) \<Rightarrow> (Inl err, s1\<lparr>privateKey := c\<rparr>)
         | (Inr token, c) \<Rightarrow>
             (let s2 = s1\<lparr>privateKey := c\<rparr>;
                  head' = head @ [(''serviceToken'', token)]
              in case encode e data of
                   Inl err \<Rightarrow> (Inl err, s2)
                 | Inr bytes \<Rightarrow>
                     connection_publish subject bytes
                       \<lparr>opt_reply = Some (replySubject s2), opt_headers = Some head',
                        opt_serviceToken = None\<rparr> s2))"

text \<open>
  \<open>uuid\<close> is the value \<^verbatim>\<open>GenerateUUIDv4()\<close> returns when it is called, that is when
  no \<^verbatim>\<open>externalMessageId\<close> is given. The result is the returned promise.
\<close>

definition sendMessage ::
  "'b env \<Rightarrow> string \<Rightarrow> jsval \<Rightarrow> bool \<Rightarrow> string option \<Rightarrow> string \<Rightarrow> 'b nats \<Rightarrow> nat \<times> 'b nats" where
  "sendMessage e subject data isResponseCallback externalMessageId uuid s =
     (let messageId = (case externalMessageId of None \<Rightarrow> uuid | Some m \<Rightarrow> m);
          (p, s0) = new_promise s
      in (p, async_unobserved
               (sendMessage_executor e subject data isResponseCallback messageId p s0)))"

definition sendRawMessage_executor ::
  "'b env \<Rightarrow> string \<Rightarrow> jsval \<Rightarrow> string \<Rightarrow> nat \<Rightarrow> 'b nats \<Rightarrow> (error + unit) \<times> 'b nats" where
  "sendRawMessage_executor e subject data messageId p s =
     (let head = [(''messageId'', messageId)];
          s1 = s\<lparr>responseCallbacksMap :=
                   AList.update messageId (RawCb p) (responseCallbacksMap s)\<rparr>
      in case sign e (secretManager s1) (privateKey s1) of
           (Inl err, c) \<Rightarrow> (Inl err, s1\<lparr>privateKey := c\<rparr>)
         | (Inr token, c) \<Rightarrow>
             (let s2 = s1\<lparr>privateKey := c\<rparr>;
                  head' = head @ [(''serviceToken'', token)]
              in case encode e data of
                   Inl err \<Rightarrow> (Inl err, s2)
                 | Inr bytes \<Rightarrow>
                     connection_publish subject bytes
                       \<lparr>opt_reply = Some (replySubject s2), opt_headers = Some head',
                        opt_serviceToken = None\<rparr> s2))"

definition sendRawMessage ::
  "'b env \<Rightarrow> string \<Rightarrow> jsval \<Rightarrow> string \<Rightarrow> 'b nats \<Rightarrow> nat \<times> 'b nats" where
  "sendRawMessage e subject data uuid s =
     (let (p, s0) = new_promise s
      in (p, async_unobserved (sendRawMessage_executor e subject data uuid p s0)))"

text \<open>
  \<open>sendMessageWithTimeout\<close> arms a timer and returns the race of the message promise
  and the timer's promise. \<open>fire_timer i\<close> is the timer at position \<open>i\<close> going off:
  its callback deletes the entry and rejects the timer's promise.
\<close>

definition sendMessageWithTimeout ::
  "'b env \<Rightarrow> string \<Rightarrow> int \<Rightarrow> jsval \<Rightarrow> string \<Rightarrow> 'b nats \<Rightarrow> nat \<times> 'b nats" where
  "sendMessageWithTimeout e subject timeout data uuid s =
     (let (mp, s1) = sendMessage e subject data True (Some uuid) uuid s;
          (tp, s2) = new_promise s1;
          s3 = s2\<lparr>timers := timers s2 @
                     [\<lparr>t_timeout = timeout, t_messageId = uuid, t_subject = subject,
                       t_promise = tp\<rparr>]\<rparr>
      in promise_race [mp, tp] s3)"

definition fire_timer :: "nat \<Rightarrow> 'b nats \<Rightarrow> 'b nats" where
  "fire_timer i s =
     (if i < length (timers s)
      then (let t = timers s ! i;
                s1 = s\<lparr>timers := take i (timers s) @ drop (Suc i) (timers s)\<rparr>;
                s2 = s1\<lparr>responseCallbacksMap :=
                         AList.delete (t_messageId t) (responseCallbacksMap s1)\<rparr>
            in settle (t_promise t)
                 (Rejected (PlainError (''Timeout exceed ('' @ t_subject t @ '')''))) s2)
      else s)"

subsection \<open>Receiving\<close>

text \<open>
  The callback that \<open>init\<close> subscribes on the reply subject, called as
  \<^verbatim>\<open>callback(error, msg)\<close>, in the parts that its two \<^verbatim>\<open>await\<close>s cut it into. It has no
  \<^verbatim>\<open>try\<close> of its own around the header reads and the decoding, so what these throw is
  an unobserved rejection.

  \<open>init_callback_start\<close> runs from the call to \<^verbatim>\<open>await this.codec.decode(msg.data)\<close>:
  it reads the headers and looks the entry up, and is suspended only if there is an
  entry.
\<close>

definition init_callback_start ::
  "'b env \<Rightarrow> error option \<Rightarrow> 'b msg \<Rightarrow> 'b nats \<Rightarrow> 'b continuation option \<times> 'b nats" where
  "init_callback_start e err m s =
     (case err of
        Some er \<Rightarrow> (None, s\<lparr>console := console s @ [LogError er]\<rparr>)
      | None \<Rightarrow>
          (case msg_headers m of
             None \<Rightarrow> (None, s\<lparr>unhandled := unhandled s @ [headers_undefined]\<rparr>)
           | Some h \<Rightarrow>
               (let messageId = hdr_get h ''messageId'';
                    serviceToken = hdr_get h ''serviceToken''
                in case map_of (responseCallbacksMap s) messageId of
                     None \<Rightarrow> (None, s)
                   | Some fn \<Rightarrow> (Some (AwaitDecode messageId serviceToken fn (msg_data m)), s))))"

text \<open>
  \<open>init_callback_resume\<close> runs a suspended call on to its next \<^verbatim>\<open>await\<close> or to its
  end. After the decoding: a falsy message gets \<^verbatim>\<open>fn(null)\<close> and the entry is deleted;
  otherwise \<open>verify\<close> is called and the call is suspended again. After the
  verification: \<^verbatim>\<open>fn\<close> is called from the \<^verbatim>\<open>try\<close> or from the \<^verbatim>\<open>catch\<close>, and the entry is
  deleted.
\<close>

fun init_callback_resume ::
  "'b env \<Rightarrow> 'b continuation \<Rightarrow> 'b nats \<Rightarrow> 'b continuation option \<times> 'b nats" where
  "init_callback_resume e (AwaitDecode messageId serviceToken fn data) s =
     (case decode e data of
        Inl er \<Rightarrow> (None, s\<lparr>unhandled := unhandled s @ [er]\<rparr>)
      | Inr msg \<Rightarrow>
          if \<not> truthy msg
          then (let s1 = invoke fn JNull JUndefined JUndefined s
                in (None, s1\<lparr>responseCallbacksMap :=
                               AList.delete messageId (responseCallbacksMap s1)\<rparr>))
          else (Some (AwaitVerify messageId fn msg
                        (verify e (Some serviceToken) (secretManager s))),
                s\<lparr>events := events s @ [VerifyCalled (Some serviceToken)]\<rparr>))"
| "init_callback_resume e (AwaitVerify messageId fn msg res) s =
     (let s1 = (case res of
                  Inr signer \<Rightarrow>
                    invoke fn (js_get msg ''body'') (js_get msg ''error'') (js_get msg ''code'') s
                | Inl er \<Rightarrow>
                    invoke fn JNull (JStr (message er)) (JNum 401)
                      (s\<lparr>console := console s @
                           [LogText ''Reply validation failed:'' (message er)]\<rparr>))
      in (None, s1\<lparr>responseCallbacksMap :=
                     AList.delete messageId (responseCallbacksMap s1)\<rparr>))"

text \<open>
  \<open>init_callback\<close> is one call of the callback that nothing interrupts: each
  suspended part is resumed at once. \<open>reply_arrives\<close> and \<open>resume_reply\<close> are what
  happens when calls may interleave: a reply arrives and its call runs to the first
  \<^verbatim>\<open>await\<close>, where it is parked; later the parked call at position \<open>i\<close> runs on.
\<close>

definition init_callback :: "'b env \<Rightarrow> error option \<Rightarrow> 'b msg \<Rightarrow> 'b nats \<Rightarrow> 'b nats" where
  "init_callback e err m s =
     (case init_callback_start e err m s of
        (None, s1) \<Rightarrow> s1
      | (Some k, s1) \<Rightarrow>
          (case init_callback_resume e k s1 of
             (None, s2) \<Rightarrow> s2
           | (Some k', s2) \<Rightarrow> snd (init_callback_resume e k' s2)))"

definition reply_arrives :: "'b env \<Rightarrow> error option \<Rightarrow> 'b msg \<Rightarrow> 'b nats \<Rightarrow> 'b nats" where
  "reply_arrives e err m s =
     (case init_callback_start e err m s of
        (None, s1) \<Rightarrow> s1
      | (Some k, s1) \<Rightarrow> s1\<lparr>suspended := suspended s1 @ [k]\<rparr>)"

definition resume_reply :: "'b env \<Rightarrow> nat \<Rightarrow> 'b nats \<Rightarrow> 'b nats" where
  "resume_reply e i s =
     (if i < length (suspended s)
      then (case init_callback_resume e (suspended s ! i)
                   (s\<lparr>suspended := take i (suspended s) @ drop (Suc i) (suspended s)\<rparr>) of
              (None, s1) \<Rightarrow> s1
            | (Some k, s1) \<Rightarrow> s1\<lparr>suspended := suspended s1 @ [k]\<rparr>)
      else s)"

text \<open>The body sent back on a subject outside the allow-list.\<close>

definition forbidden_body :: jsval where
  "forbidden_body =
     JObj [(''body'', JNull), (''error'', JStr ''Forbidden''), (''code'', JNum 403),
           (''name'', JStr ''Forbidden''), (''message'', JStr ''Forbidden'')]"

definition respond :: "'b \<Rightarrow> hdrs \<Rightarrow> 'b nats \<Rightarrow> 'b nats" where
  "respond bytes head s = s\<lparr>responses := responses s @ [\<lparr>rsp_data = bytes, rsp_headers = head\<rparr>]\<rparr>"

text \<open>
  The callback of \<open>getMessages\<close>: first the \<^verbatim>\<open>try\<close> block, then the \<^verbatim>\<open>catch\<close> that
  logs. The handler \<open>cb\<close> is an asynchronous function of the decoded data and the
  headers: awaited when a response is due, left unobserved under \<open>noRespond\<close>.
\<close>

definition getMessages_try ::
  "'b env \<Rightarrow> string \<Rightarrow> (jsval \<Rightarrow> hdrs option \<Rightarrow> error + jsval) \<Rightarrow> bool \<Rightarrow> 'b msg \<Rightarrow> 'b nats
     \<Rightarrow> (error + unit) \<times> 'b nats" where
  "getMessages_try e subject cb noRespond m s =
     (let messageId = map_option (\<lambda>h. hdr_get h ''messageId'') (msg_headers m);
          serviceToken = map_option (\<lambda>h. hdr_get h ''serviceToken'') (msg_headers m);
          head = (case messageId of
                    None \<Rightarrow> []
                  | Some i \<Rightarrow> if i = [] then [] else [(''messageId'', i)])
      in if (case availableEvents s of None \<Rightarrow> False | Some ae \<Rightarrow> subject \<notin> set ae)
         then (if \<not> noRespond
               then (case encode e forbidden_body of
                       Inl er \<Rightarrow> (Inl er, s)
                     | Inr bytes \<Rightarrow> (Inr (), respond bytes head s))
               else (Inl ForbiddenException, s))
         else
           (let s1 = s\<lparr>events := events s @ [VerifyCalled serviceToken]\<rparr>
            in case verify e serviceToken (secretManager s) of
                 Inl er \<Rightarrow> (Inl er, s1)
               | Inr signer \<Rightarrow>
                   (case decode e (msg_data m) of
                      Inl er \<Rightarrow> (Inl er, s1)
                    | Inr d \<Rightarrow>
                        (let s2 = s1\<lparr>events := events s1 @ [HandlerInvoked d]\<rparr>
                         in if \<not> noRespond
                            then (case cb d (msg_headers m) of
                                    Inl er \<Rightarrow> (Inl er, s2)
                                  | Inr r \<Rightarrow>
                                      (case encode e r of
                                         Inl er \<Rightarrow> (Inl er, s2)
                                       | Inr bytes \<Rightarrow> (Inr (), respond bytes head s2)))
                            else (case cb d (msg_headers m) of
                                    Inl er \<Rightarrow> (Inr (), s2\<lparr>unhandled := unhandled s2 @ [er]\<rparr>)
                                  | Inr r \<Rightarrow> (Inr (), s2))))))"

definition getMessages_callback ::
  "'b env \<Rightarrow> string \<Rightarrow> (jsval \<Rightarrow> hdrs option \<Rightarrow> error + jsval) \<Rightarrow> bool \<Rightarrow> 'b msg \<Rightarrow> 'b nats
     \<Rightarrow> 'b nats" where
  "getMessages_callback e subject cb noRespond m s =
     (case getMessages_try e subject cb noRespond m s of
        (Inl er, s') \<Rightarrow> s'\<lparr>console := console s' @ [LogError er]\<rparr>
      | (Inr u, s') \<Rightarrow> s')"

subsection \<open>Configuration and a fresh instance\<close>

definition configureAvailableEvents :: "string list \<Rightarrow> 'b nats \<Rightarrow> 'b nats" where
  "configureAvailableEvents evs s = s\<lparr>availableEvents := Some evs\<rparr>"

definition configureSecretManager :: "secret_manager option \<Rightarrow> 'b nats \<Rightarrow> 'b nats" where
  "configureSecretManager mgr s = s\<lparr>secretManager := mgr\<rparr>"

text \<open>The field initialisers of the class, with a connection set.\<close>

definition fresh :: "string \<Rightarrow> 'b nats" where
  "fresh rs =
     \<lparr>replySubject = rs, responseCallbacksMap = [], availableEvents = None,
      secretManager = None, privateKey = None, connected = True, published = [],
      responses = [], promises = [], races = [], timers = [], console = [],
      unhandled = [], events = [], subscriptions = [], suspended = []\<rparr>"

subsection \<open>Runs\<close>

text \<open>
  What can happen to an instance, one at a time: the calls of its methods, a reply
  arriving and starting a call of the reply callback, a suspended call of that callback
  running on, a timer going off, a message delivered to a handler registered with
  \<open>getMessages\<close> or to the loop of \<open>subscribe\<close>, and the connection closing or
  opening. \<open>run\<close> performs a sequence of them.
\<close>

datatype 'b action =
    Publish string jsval "string option"
  | SendMessage string jsval bool "string option" string
  | SendMessageWithTimeout string int jsval string
  | SendRawMessage string jsval string
  | ReplyArrives "error option" "'b msg"
  | TimerFires nat
  | Delivered string bool "'b msg"
  | ConfigureAvailableEvents "string list"
  | ConfigureSecretManager "secret_manager option"
  | ConnectionState bool
  | Resumes nat
  | Subscribe string
  | StreamDelivered "'b msg"

fun step ::
  "'b env \<Rightarrow> (jsval \<Rightarrow> hdrs option \<Rightarrow> error + jsval) \<Rightarrow> 'b action \<Rightarrow> 'b nats \<Rightarrow> 'b nats" where
  "step e cb (Publish subject data reply) s = snd (publish e subject data reply s)"
| "step e cb (SendMessage subject data irc ext uuid) s = snd (sendMessage e subject data irc ext uuid s)"
| "step e cb (SendMessageWithTimeout subject t data uuid) s =
     snd (sendMessageWithTimeout e subject t data uuid s)"
| "step e cb (SendRawMessage subject data uuid) s = snd (sendRawMessage e subject data uuid s)"
| "step e cb (ReplyArrives err m) s = reply_arrives e err m s"
| "step e cb (TimerFires i) s = fire_timer i s"
| "step e cb (Delivered subject noRespond m) s = getMessages_callback e subject cb noRespond m s"
| "step e cb (ConfigureAvailableEvents evs) s = configureAvailableEvents evs s"
| "step e cb (ConfigureSecretManager mgr) s = configureSecretManager mgr s"
| "step e cb (ConnectionState up) s = s\<lparr>connected := up\<rparr>"
| "step e cb (Resumes i) s = resume_reply e i s"
| "step e cb (Subscribe subject) s = snd (subscribe subject s)"
| "step e cb (StreamDelivered m) s = subscribe_message e cb m s"

fun run ::
  "'b env \<Rightarrow> (jsval \<Rightarrow> hdrs option \<Rightarrow> error + jsval) \<Rightarrow> 'b action list \<Rightarrow> 'b nats \<Rightarrow> 'b nats" where
  "run e cb [] s = s"
| "run e cb (a # as) s = run e cb as (step e cb a s)"

text \<open>The entries stored under one \<^verbatim>\<open>messageId\<close>.\<close>

definition entries_for :: "string \<Rightarrow> 'b nats \<Rightarrow> (string \<times> callback) list" where
  "entries_for mid s = filter (\<lambda>kv. fst kv = mid) (responseCallbacksMap s)"

text \<open>
  \<open>keeps s s'\<close>: going from \<open>s\<close> to \<open>s'\<close>, no promise disappears, no settled
  promise changes, and no race is forgotten.
\<close>

definition keeps :: "'b nats \<Rightarrow> 'b nats \<Rightarrow> bool" where
  "keeps s s' \<longleftrightarrow>
     length (promises s) \<le> length (promises s')
     \<and> (\<forall>r < length (promises s). promises s ! r \<noteq> Pending \<longrightarrow> promises s' ! r = promises s ! r)
     \<and> set (races s) \<subseteq> set (races s')"

subsection \<open>A concrete instance of the parameters\<close>

text \<open>
  For evaluating the model at concrete inputs: a token library in which the token for
  claim \<open>a\<close> signed with the private key \<open>k\<close> is the text \<open>a|k\<close> and the public key
  that validates signatures of \<open>k\<close> is \<open>pub-k\<close>; the identity codec; and a Secret
  Store that holds the key pair of service \<open>svc-a\<close> and the public key of \<open>svc-b\<close>.
\<close>

definition fixture_env :: "jsval env" where
  "fixture_env =
     \<lparr>jwt_sign = (\<lambda>p k. Inr ((case sub p of None \<Rightarrow> [] | Some a \<Rightarrow> a) @ ''|'' @ k)),
      jwt_decode = (\<lambda>t. if CHR ''|'' \<in> set t
                         then Some \<lparr>sub = Some (takeWhile (\<lambda>c. c \<noteq> CHR ''|'') t)\<rparr>
                         else None),
      jwt_verify = (\<lambda>t pk. if CHR ''|'' \<in> set t
                               \<and> pk = ''pub-'' @ tl (dropWhile (\<lambda>c. c \<noteq> CHR ''|'') t)
                            then Some \<lparr>sub = Some (takeWhile (\<lambda>c. c \<noteq> CHR ''|'') t)\<rparr>
                            else None),
      encode = Inr,
      decode = Inr,
      SERVICE_CHANNEL = Some ''svc-a''\<rparr>"

definition fixture_store :: secret_manager where
  "fixture_store path =
     (if path = ''secretkey/jwt-service/svc-a''
      then Some [''SERVICE_JWT_SECRET_KEY'' \<mapsto> ''ka'']
      else if path = ''publickey/jwt-service/svc-a''
      then Some [''SERVICE_JWT_PUBLIC_KEY'' \<mapsto> ''pub-ka'']
      else if path = ''publickey/jwt-service/svc-b''
      then Some [''SERVICE_JWT_PUBLIC_KEY'' \<mapsto> ''pub-kb'']
      else None)"

text \<open>A Secret Store that holds nothing.\<close>

definition empty_store :: secret_manager where
  "empty_store path = None"

text \<open>
  A handler that answers every request, a message as the reply listener receives it,
  an instance with one request of \<open>sendMessage\<close> and one of \<open>sendRawMessage\<close>
  outstanding, the result of one \<open>sendMessageWithTimeout\<close> on a fresh instance, and the
  state after one more, unrelated request.
\<close>

definition fixture_handler :: "jsval \<Rightarrow> hdrs option \<Rightarrow> error + jsval" where
  "fixture_handler d h = Inr (JObj [(''body'', JStr ''pong'')])"

definition reply_msg :: "string \<Rightarrow> string \<Rightarrow> jsval \<Rightarrow> jsval msg" where
  "reply_msg mid tok v =
     \<lparr>msg_headers = Some [(''messageId'', mid), (''serviceToken'', tok)], msg_data = v\<rparr>"

definition waiting :: "jsval nats" where
  "waiting =
     run fixture_env fixture_handler
       [ConfigureSecretManager (Some fixture_store),
        SendMessage ''svc.y'' (JStr ''ping'') True None ''id1'',
        SendRawMessage ''svc.y'' (JStr ''ping'') ''id2'']
       (fresh ''r1'')"

definition timed :: "nat \<times> jsval nats" where
  "timed = sendMessageWithTimeout fixture_env ''svc.y'' 50 (JStr ''ping'') ''id1'' (fresh ''r1'')"

definition timed_later :: "jsval nats" where
  "timed_later =
     run fixture_env fixture_handler [SendRawMessage ''svc.y'' (JStr ''other'') ''id5''] (snd timed)"

section \<open>Properties of the token validator\<close>

lemmas fixture_simps =
  fixture_env_def fixture_store_def empty_store_def secret_field_def svc_name_def




text \<open>
  Claim C5: a token that \<open>sign\<close> produces for identity A (the private key \<open>sk\<close> of A,
  cached or read from the Secret Store), verified against the public key \<open>pk\<close> published
  for A, yields A. The token library is a parameter, so that \<open>pk\<close> validates what
  \<open>sk\<close> signs is a hypothesis on this one token. And a non-empty token naming B whose
  published key does not validate it, whether \<^verbatim>\<open>jwt.verify\<close> throws (bad signature,
  expired, malformed) or returns a payload with another \<^verbatim>\<open>sub\<close>, fails with the one
  error \<^verbatim>\<open>JWTValidator: invalid or expired token\<close>.
\<close>

theorem token_round_trip:
  assumes "SERVICE_CHANNEL e = Some A"
      and "loadPrivateKey e m cache = (Inr sk, cache')"
      and "secret_field (m (''publickey/jwt-service/'' @ A)) ''SERVICE_JWT_PUBLIC_KEY'' = Some pk"
      and "jwt_sign e \<lparr>sub = Some A\<rparr> sk = Inr tok"
      and "tok \<noteq> []" and "A \<noteq> []"
      and "jwt_decode e tok = Some d" and "sub d = Some A"
      and "jwt_verify e tok pk = Some p" and "sub p = Some A"
  shows "sign e (Some m) cache = (Inr tok, cache')
       \<and> verify e (Some tok) (Some m) = Inr A
       \<and> (t \<noteq> [] \<and> jwt_decode e t = Some d' \<and> sub d' = Some B \<and> B \<noteq> []
            \<and> secret_field (m (''publickey/jwt-service/'' @ B)) ''SERVICE_JWT_PUBLIC_KEY''
                = Some pkB
            \<and> (jwt_verify e t pkB = None \<or> (\<exists>q. jwt_verify e t pkB = Some q \<and> sub q \<noteq> Some B))
            \<longrightarrow> verify e (Some t) (Some m) = Inl (Error ''JWTValidator: invalid or expired token''))"
  using assms by (auto simp: sign_def verify_def split: option.splits if_splits)

theorem token_round_trip_witness:
  "sign fixture_env (Some fixture_store) None = (Inr ''svc-a|ka'', Some ''ka'')
   \<and> verify fixture_env (Some ''svc-a|ka'') (Some fixture_store) = Inr ''svc-a''
   \<and> jwt_verify fixture_env ''svc-b|ka'' ''pub-kb'' = None
   \<and> verify fixture_env (Some ''svc-b|ka'') (Some fixture_store)
       = Inl (Error ''JWTValidator: invalid or expired token'')"
  using token_round_trip [of fixture_env "''svc-a''" fixture_store None "''ka''" "Some ''ka''"
          "''pub-ka''" "''svc-a|ka''" "\<lparr>sub = Some ''svc-a''\<rparr>" "\<lparr>sub = Some ''svc-a''\<rparr>"
          "''svc-b|ka''" "\<lparr>sub = Some ''svc-b''\<rparr>" "''svc-b''" "''pub-kb''"]
  by (simp add: sign_def loadPrivateKey_def verify_def fixture_simps)

section \<open>Properties of sending\<close>

lemmas op_simps =
  publish_def sign_def loadPrivateKey_def connection_publish_def fresh_def
  configureAvailableEvents_def configureSecretManager_def sendMessage_def
  sendMessage_executor_def sendRawMessage_def sendRawMessage_executor_def
  async_unobserved_def new_promise_def settle_def

lemma send_envelope:
  assumes "sign e (secretManager s) (privateKey s) = (Inr token, c)"
      and "encode e data = Inr bytes" and "connected s"
  shows "published (snd (sendMessage e subject data irc ext uuid s))
           = published s @
               [\<lparr>env_subject = subject, env_data = bytes,
                 env_headers = Some [(''messageId'', case ext of None \<Rightarrow> uuid | Some i \<Rightarrow> i),
                                     (''serviceToken'', token)],
                 env_reply = Some (replySubject s)\<rparr>]"
    and "published (snd (sendRawMessage e subject data uuid s))
           = published s @
               [\<lparr>env_subject = subject, env_data = bytes,
                 env_headers = Some [(''messageId'', uuid), (''serviceToken'', token)],
                 env_reply = Some (replySubject s)\<rparr>]"
  using assms
  by (simp_all add: sendMessage_def sendMessage_executor_def sendRawMessage_def
        sendRawMessage_executor_def async_unobserved_def new_promise_def connection_publish_def
        settle_def Let_def)

text \<open>
  Claim C2: every message that \<open>publish\<close>, \<open>sendMessage\<close> and \<open>sendRawMessage\<close>
  put on the bus carries the token of \<open>sign\<close> as its \<^verbatim>\<open>serviceToken\<close> header.

  \<open>sendMessage\<close> and \<open>sendRawMessage\<close> append the token to the headers they publish.
  \<open>publish\<close> stores it as a property \<^verbatim>\<open>serviceToken\<close> of the options object and passes
  no \<^verbatim>\<open>headers\<close>: with a Secret Store holding the service's key, the token is signed and
  the envelope goes out with no headers at all.
\<close>

theorem publish_envelope_without_headers:
  "sign fixture_env (Some fixture_store) None = (Inr ''svc-a|ka'', Some ''ka'')
   \<and> publish fixture_env ''svc.y'' (JStr ''hi'') None
         (configureSecretManager (Some fixture_store) (fresh ''r1''))
       = (Inr (),
          (configureSecretManager (Some fixture_store) (fresh ''r1''))
            \<lparr>privateKey := Some ''ka'',
             published := [\<lparr>env_subject = ''svc.y'', env_data = JStr ''hi'',
                             env_headers = None, env_reply = None\<rparr>]\<rparr>)"
  by (simp add: op_simps fixture_simps)

text \<open>
  Claim C3, as stated: with an allow-list configured, \<open>publish\<close> on a subject outside
  the list refuses with an access-control error; and \<open>publish\<close> creates no correlation
  entry.

  \<open>publish\<close> never reads the allow-list. On an instance with the Secret Store of the
  service and the allow-list \<open>[svc.y]\<close>, subscribing to \<open>svc.z\<close> is refused while
  publishing on \<open>svc.z\<close> succeeds and the message goes out.
\<close>

theorem publish_outside_allow_list_counterexample:
  "subscribe ''svc.z''
     (configureAvailableEvents [''svc.y'']
        (configureSecretManager (Some fixture_store) (fresh ''r1'' :: jsval nats)))
     = (Inl (Error (''NATS ACL: subscription to '' @ [CHR 0x22] @ ''svc.z'' @ [CHR 0x22]
                     @ '' not allowed'')),
        configureAvailableEvents [''svc.y'']
          (configureSecretManager (Some fixture_store) (fresh ''r1'')))
   \<and> publish fixture_env ''svc.z'' (JStr ''hi'') None
         (configureAvailableEvents [''svc.y'']
            (configureSecretManager (Some fixture_store) (fresh ''r1'')))
       = (Inr (),
          (configureAvailableEvents [''svc.y'']
             (configureSecretManager (Some fixture_store) (fresh ''r1'')))
            \<lparr>privateKey := Some ''ka'',
             published := [\<lparr>env_subject = ''svc.z'', env_data = JStr ''hi'',
                             env_headers = None, env_reply = None\<rparr>]\<rparr>)"
  by (simp add: op_simps fixture_simps subscribe_def)

text \<open>
  Claim C3, amended: \<open>publish\<close> makes no access-control check. Its result and what it
  publishes are the same under every allow-list; when signing, encoding and the
  transport succeed the message is published on the subject given; it never changes the
  table of correlation entries. The allow-list is enforced where a subscription is
  opened: for a subject outside a configured list \<open>subscribe\<close> throws the
  access-control error and opens nothing, whatever the state of the connection; for a
  subject in the list it does what it does with no list configured.
\<close>

theorem publish_no_outbound_check:
  "publish e subject data reply (s\<lparr>availableEvents := ae\<rparr>)
     = (fst (publish e subject data reply s),
        (snd (publish e subject data reply s))\<lparr>availableEvents := ae\<rparr>)
   \<and> responseCallbacksMap (snd (publish e subject data reply s)) = responseCallbacksMap s
   \<and> (sign e (secretManager s) (privateKey s) = (Inr token, c) \<and> encode e data = Inr bytes
        \<and> connected s
      \<longrightarrow> fst (publish e subject data reply s) = Inr ()
          \<and> published (snd (publish e subject data reply s))
              = published s @ [\<lparr>env_subject = subject, env_data = bytes, env_headers = None,
                                env_reply = (case reply of None \<Rightarrow> None
                                             | Some r \<Rightarrow> if r = [] then None else Some r)\<rparr>])
   \<and> subscribe subject (s\<lparr>availableEvents := Some evs\<rparr>)
       = (if subject \<in> set evs
          then (fst (subscribe subject (s\<lparr>availableEvents := None\<rparr>)),
                (snd (subscribe subject (s\<lparr>availableEvents := None\<rparr>)))
                  \<lparr>availableEvents := Some evs\<rparr>)
          else (Inl (Error (''NATS ACL: subscription to '' @ [CHR 0x22] @ subject @ [CHR 0x22]
                             @ '' not allowed'')),
                s\<lparr>availableEvents := Some evs\<rparr>))
   \<and> subscribe subject (s\<lparr>availableEvents := None\<rparr>)
       = (if connected s
          then (Inr (), s\<lparr>availableEvents := None,
                           subscriptions := subscriptions s @ [subject]\<rparr>)
          else (Inl (Error ''CONNECTION_CLOSED''), s\<lparr>availableEvents := None\<rparr>))"
  by (auto simp: publish_def connection_publish_def subscribe_def Let_def
        split: prod.splits sum.splits)

theorem publish_no_outbound_check_witness:
  "availableEvents
     (configureAvailableEvents [''svc.y'']
        (configureSecretManager (Some fixture_store) (fresh ''r1'' :: jsval nats)))
     = Some [''svc.y'']
   \<and> sign fixture_env (Some fixture_store) None = (Inr ''svc-a|ka'', Some ''ka'')
   \<and> encode fixture_env (JStr ''hi'') = Inr (JStr ''hi'')
   \<and> connected (configureSecretManager (Some fixture_store) (fresh ''r1'' :: jsval nats))
   \<and> fst (publish fixture_env ''svc.z'' (JStr ''hi'') None
             (configureAvailableEvents [''svc.y'']
                (configureSecretManager (Some fixture_store) (fresh ''r1''))))
       = Inr ()
   \<and> published (snd (publish fixture_env ''svc.z'' (JStr ''hi'') None
                        (configureAvailableEvents [''svc.y'']
                           (configureSecretManager (Some fixture_store) (fresh ''r1'')))))
       = [\<lparr>env_subject = ''svc.z'', env_data = JStr ''hi'', env_headers = None,
           env_reply = None\<rparr>]
   \<and> responseCallbacksMap (snd (publish fixture_env ''svc.z'' (JStr ''hi'') None
                        (configureAvailableEvents [''svc.y'']
                           (configureSecretManager (Some fixture_store) (fresh ''r1'')))))
       = []
   \<and> fst (subscribe ''svc.z''
             (configureAvailableEvents [''svc.y'']
                (configureSecretManager (Some fixture_store) (fresh ''r1'' :: jsval nats))))
       = Inl (Error (''NATS ACL: subscription to '' @ [CHR 0x22] @ ''svc.z'' @ [CHR 0x22]
                      @ '' not allowed''))
   \<and> subscriptions (snd (subscribe ''svc.y''
             (configureAvailableEvents [''svc.y'']
                (configureSecretManager (Some fixture_store) (fresh ''r1'' :: jsval nats)))))
       = [''svc.y'']"
proof -
  let ?s = "configureSecretManager (Some fixture_store) (fresh ''r1'' :: jsval nats)"
  have cfg: "configureAvailableEvents [''svc.y''] ?s = ?s\<lparr>availableEvents := Some [''svc.y'']\<rparr>"
    by (simp add: configureAvailableEvents_def)
  have sg: "sign fixture_env (secretManager ?s) (privateKey ?s) = (Inr ''svc-a|ka'', Some ''ka'')"
    by (simp add: op_simps fixture_simps)
  have en: "encode fixture_env (JStr ''hi'') = Inr (JStr ''hi'')"
    by (simp add: fixture_env_def)
  have cn: "connected ?s"
    by (simp add: configureSecretManager_def fresh_def)
  have sub0: "subscriptions ?s = []"
    by (simp add: configureSecretManager_def fresh_def)
  have pub0: "published ?s = []" "responseCallbacksMap ?s = []"
    by (simp_all add: configureSecretManager_def fresh_def)
  have sg': "sign fixture_env (Some fixture_store) None = (Inr ''svc-a|ka'', Some ''ka'')"
    by (simp add: op_simps fixture_simps)
  from publish_no_outbound_check [where e = fixture_env and subject = "''svc.z''"
         and data = "JStr ''hi''" and reply = None and s = ?s and ae = "Some [''svc.y'']"
         and token = "''svc-a|ka''" and c = "Some ''ka''" and bytes = "JStr ''hi''"
         and evs = "[''svc.y'']"]
       publish_no_outbound_check [where e = fixture_env and subject = "''svc.y''"
         and data = "JStr ''hi''" and reply = None and s = ?s and ae = "Some [''svc.y'']"
         and evs = "[''svc.y'']"]
       sg en cn
  show ?thesis
    by (simp add: cfg sub0 pub0 sg')
qed

lemma send_failure:
  assumes "sign e (secretManager s) (privateKey s) = (Inl err, c)"
  shows "fst (sendMessage e subject data True ext uuid s) = length (promises s)"
    and "promises (snd (sendMessage e subject data True ext uuid s)) = promises s @ [Pending]"
    and "unhandled (snd (sendMessage e subject data True ext uuid s)) = unhandled s @ [err]"
    and "map_of (responseCallbacksMap (snd (sendMessage e subject data True ext uuid s)))
           (case ext of None \<Rightarrow> uuid | Some i \<Rightarrow> i)
         = Some (SendCb (length (promises s)))"
    and "published (snd (sendMessage e subject data True ext uuid s)) = published s"
  using assms
  by (simp_all add: sendMessage_def sendMessage_executor_def async_unobserved_def new_promise_def
        update_conv' Let_def)

lemma publish_failure:
  assumes "sign e (secretManager s) (privateKey s) = (Inl err, c)"
  shows "fst (publish e subject data reply s) = Inl err"
  using assms by (simp add: publish_def)

text \<open>
  Claim C6: when signing, encoding or the transport fails in a send-style operation,
  the returned promise is rejected with the error and the entry stored for the
  operation's \<^verbatim>\<open>messageId\<close> is removed.

  In \<open>sendMessage\<close> and \<open>sendRawMessage\<close> the entry is stored before signing, and the
  executor is an \<^verbatim>\<open>async\<close> function without a \<^verbatim>\<open>try\<close>: with a Secret Store that holds
  no private key, or with a closed connection, the returned promise stays pending, the
  entry stays in the table and the error is an unobserved rejection. \<open>publish\<close>, an
  \<^verbatim>\<open>async\<close> method, rejects with the error.
\<close>

theorem send_failure_leaves_entry:
  "sendMessage fixture_env ''svc.y'' (JStr ''hi'') True None ''id1''
      (configureSecretManager (Some empty_store) (fresh ''r1''))
     = (0, (configureSecretManager (Some empty_store) (fresh ''r1''))
             \<lparr>responseCallbacksMap := [(''id1'', SendCb 0)],
              promises := [Pending],
              unhandled := [Error ''JWTValidator: no privateKey at secretkey/jwt-service/svc-a'']\<rparr>)
   \<and> sendRawMessage fixture_env ''svc.y'' (JStr ''hi'') ''id2''
      (configureSecretManager (Some empty_store) (fresh ''r1''))
     = (0, (configureSecretManager (Some empty_store) (fresh ''r1''))
             \<lparr>responseCallbacksMap := [(''id2'', RawCb 0)],
              promises := [Pending],
              unhandled := [Error ''JWTValidator: no privateKey at secretkey/jwt-service/svc-a'']\<rparr>)
   \<and> sendMessage fixture_env ''svc.y'' (JStr ''hi'') True None ''id1''
      ((fresh ''r1'')\<lparr>connected := False\<rparr>)
     = (0, (fresh ''r1'')
             \<lparr>connected := False, responseCallbacksMap := [(''id1'', SendCb 0)],
              promises := [Pending],
              unhandled := [Error ''CONNECTION_CLOSED'']\<rparr>)"
  by (simp add: op_simps fixture_simps)

section \<open>Properties of promises and of the table of pending requests\<close>

lemma length_adopt [simp]: "length (adopt rs p out ps) = length ps"
  by (induction rs p out ps rule: adopt.induct) simp_all

lemma adopt_settled:
  "r < length ps \<Longrightarrow> ps ! r \<noteq> Pending \<Longrightarrow> adopt rs p out ps ! r = ps ! r"
  by (induction rs p out ps rule: adopt.induct) (auto simp: nth_list_update)

lemma adopt_follower:
  "(p, r) \<in> set rs \<Longrightarrow> r < length ps \<Longrightarrow> ps ! r = Pending \<Longrightarrow> out \<noteq> Pending
   \<Longrightarrow> adopt rs p out ps ! r = out"
proof (induction rs p out ps rule: adopt.induct)
  case (1 p out ps)
  then show ?case by simp
next
  case (2 src r' rs p out ps)
  show ?case
  proof (cases "src = p \<and> r' < length ps \<and> ps ! r' = Pending")
    case True
    show ?thesis
    proof (cases "r' = r")
      case True
      with \<open>src = p \<and> r' < length ps \<and> ps ! r' = Pending\<close> 2 show ?thesis
        by (simp add: adopt_settled)
    next
      case False
      with \<open>src = p \<and> r' < length ps \<and> ps ! r' = Pending\<close> 2 show ?thesis
        by (cases "(p, r) \<in> set rs") auto
    qed
  next
    case False
    with 2 show ?thesis by auto
  qed
qed

lemma settle_fields [simp]:
  "responseCallbacksMap (settle p out s) = responseCallbacksMap s"
  "unhandled (settle p out s) = unhandled s"
  "events (settle p out s) = events s"
  "timers (settle p out s) = timers s"
  "races (settle p out s) = races s"
  "console (settle p out s) = console s"
  "secretManager (settle p out s) = secretManager s"
  "length (promises (settle p out s)) = length (promises s)"
  by (simp_all add: settle_def)

lemma settle_owner:
  "p < length (promises s) \<Longrightarrow> promises s ! p = Pending \<Longrightarrow> out \<noteq> Pending
   \<Longrightarrow> promises (settle p out s) ! p = out"
  by (simp add: settle_def adopt_settled)

lemma settle_follower:
  "p < length (promises s) \<Longrightarrow> promises s ! p = Pending \<Longrightarrow> (p, r) \<in> set (races s)
   \<Longrightarrow> r < length (promises s) \<Longrightarrow> promises s ! r = Pending \<Longrightarrow> out \<noteq> Pending
   \<Longrightarrow> promises (settle p out s) ! r = out"
  by (cases "r = p") (simp_all add: settle_def adopt_settled adopt_follower)

lemma settle_settled:
  "r < length (promises s) \<Longrightarrow> promises s ! r \<noteq> Pending
   \<Longrightarrow> promises (settle p out s) ! r = promises s ! r"
  by (cases "r = p") (auto simp: settle_def adopt_settled)

lemma invoke_fields [simp]:
  "responseCallbacksMap (invoke fn b er c s) = responseCallbacksMap s"
  "unhandled (invoke fn b er c s) = unhandled s"
  "events (invoke fn b er c s) = events s @ [CallbackInvoked fn b er c]"
  "timers (invoke fn b er c s) = timers s"
  "races (invoke fn b er c s) = races s"
  "length (promises (invoke fn b er c s)) = length (promises s)"
  by (cases fn; simp add: Let_def)+

lemma invoke_owner:
  assumes "owner fn < length (promises s)" and "promises s ! owner fn = Pending"
  shows "promises (invoke fn b er c s) ! owner fn
           = (if truthy er
              then (case fn of SendCb p \<Rightarrow> Rejected (MessageError er c)
                             | RawCb p \<Rightarrow> Rejected (Bare er))
              else Resolved b)"
  using assms by (cases fn) (simp_all add: Let_def settle_owner)

lemma verify_error_message:
  "verify e t mgr = Inl er \<Longrightarrow> message er \<noteq> []"
  by (auto simp: verify_def split: option.splits if_splits)

lemma map_of_delete_same [simp]: "map_of (AList.delete k al) k = None"
  by (simp add: delete_conv')

text \<open>One uninterrupted call of the reply callback, written out.\<close>

lemma init_callback_eq:
  "init_callback e err m s =
     (case err of
        Some er \<Rightarrow> s\<lparr>console := console s @ [LogError er]\<rparr>
      | None \<Rightarrow>
          (case msg_headers m of
             None \<Rightarrow> s\<lparr>unhandled := unhandled s @ [headers_undefined]\<rparr>
           | Some h \<Rightarrow>
               (case map_of (responseCallbacksMap s) (hdr_get h ''messageId'') of
                  None \<Rightarrow> s
                | Some fn \<Rightarrow>
                    (case decode e (msg_data m) of
                       Inl er \<Rightarrow> s\<lparr>unhandled := unhandled s @ [er]\<rparr>
                     | Inr msg \<Rightarrow>
                         (let s1 =
                            (if \<not> truthy msg then invoke fn JNull JUndefined JUndefined s
                             else
                               (let s' = s\<lparr>events := events s @
                                             [VerifyCalled (Some (hdr_get h ''serviceToken''))]\<rparr>
                                in case verify e (Some (hdr_get h ''serviceToken'')) (secretManager s) of
                                     Inr signer \<Rightarrow>
                                       invoke fn (js_get msg ''body'') (js_get msg ''error'')
                                         (js_get msg ''code'') s'
                                   | Inl er \<Rightarrow>
                                       invoke fn JNull (JStr (message er)) (JNum 401)
                                         (s'\<lparr>console := console s' @
                                               [LogText ''Reply validation failed:'' (message er)]\<rparr>)))
                          in s1\<lparr>responseCallbacksMap :=
                                  AList.delete (hdr_get h ''messageId'') (responseCallbacksMap s1)\<rparr>)))))"
  by (simp add: init_callback_def init_callback_start_def Let_def
        split: option.splits sum.splits)

lemma init_callback_unknown:
  "msg_headers m = Some h \<Longrightarrow> map_of (responseCallbacksMap s) (hdr_get h ''messageId'') = None
   \<Longrightarrow> init_callback e None m s = s"
  by (simp add: init_callback_eq)

lemma init_callback_removes:
  "msg_headers m = Some h \<Longrightarrow> map_of (responseCallbacksMap s) (hdr_get h ''messageId'') = Some fn
   \<Longrightarrow> decode e (msg_data m) = Inr v
   \<Longrightarrow> map_of (responseCallbacksMap (init_callback e None m s)) (hdr_get h ''messageId'') = None"
  by (auto simp: init_callback_eq Let_def
        split: sum.splits)

lemma init_callback_others:
  "msg_headers m = Some h \<Longrightarrow> k \<noteq> hdr_get h ''messageId''
   \<Longrightarrow> map_of (responseCallbacksMap (init_callback e err m s)) k = map_of (responseCallbacksMap s) k"
  by (auto simp: init_callback_eq Let_def
        split: sum.splits option.splits)

lemma rcm_publish [simp]:
  "responseCallbacksMap (snd (publish e subject data reply s)) = responseCallbacksMap s"
  by (auto simp: publish_def connection_publish_def Let_def split: prod.splits sum.splits)

lemma rcm_sendMessage:
  "responseCallbacksMap (snd (sendMessage e subject data irc ext uuid s))
     = (if irc then AList.update (case ext of None \<Rightarrow> uuid | Some m \<Rightarrow> m)
                      (SendCb (length (promises s))) (responseCallbacksMap s)
        else responseCallbacksMap s)"
  by (auto simp: sendMessage_def sendMessage_executor_def async_unobserved_def new_promise_def
        connection_publish_def Let_def split: prod.splits sum.splits)

lemma rcm_sendRawMessage:
  "responseCallbacksMap (snd (sendRawMessage e subject data uuid s))
     = AList.update uuid (RawCb (length (promises s))) (responseCallbacksMap s)"
  by (auto simp: sendRawMessage_def sendRawMessage_executor_def async_unobserved_def new_promise_def
        connection_publish_def Let_def split: prod.splits sum.splits)

lemma rcm_sendMessageWithTimeout:
  "responseCallbacksMap (snd (sendMessageWithTimeout e subject t data uuid s))
     = AList.update uuid (SendCb (length (promises s))) (responseCallbacksMap s)"
  using rcm_sendMessage [of e subject data True "Some uuid" uuid s]
  by (auto simp: sendMessageWithTimeout_def new_promise_def Let_def split: prod.splits list.splits)

lemma rcm_init_callback:
  "responseCallbacksMap (init_callback e err m s) = responseCallbacksMap s
   \<or> (\<exists>k. responseCallbacksMap (init_callback e err m s) = AList.delete k (responseCallbacksMap s))"
  by (auto simp: init_callback_eq Let_def
        split: option.splits sum.splits)

lemma rcm_fire_timer:
  "responseCallbacksMap (fire_timer i s) = responseCallbacksMap s
   \<or> (\<exists>k. responseCallbacksMap (fire_timer i s) = AList.delete k (responseCallbacksMap s))"
  by (auto simp: fire_timer_def Let_def)

lemma rcm_getMessages_callback [simp]:
  "responseCallbacksMap (getMessages_callback e subject cb nr m s) = responseCallbacksMap s"
  by (auto simp: getMessages_callback_def getMessages_try_def respond_def Let_def
        split: option.splits sum.splits prod.splits if_splits)

lemma rcm_reply_arrives [simp]:
  "responseCallbacksMap (reply_arrives e err m s) = responseCallbacksMap s"
  "promises (reply_arrives e err m s) = promises s"
  "races (reply_arrives e err m s) = races s"
  by (simp_all add: reply_arrives_def init_callback_start_def Let_def split: option.splits)

lemma rcm_init_callback_resume:
  "responseCallbacksMap (snd (init_callback_resume e k s)) = responseCallbacksMap s
   \<or> (\<exists>i. responseCallbacksMap (snd (init_callback_resume e k s))
             = AList.delete i (responseCallbacksMap s))"
  by (cases k) (auto simp: Let_def split: sum.splits)

lemma rcm_resume_reply:
  "responseCallbacksMap (resume_reply e i s) = responseCallbacksMap s
   \<or> (\<exists>k. responseCallbacksMap (resume_reply e i s) = AList.delete k (responseCallbacksMap s))"
proof (cases "i < length (suspended s)")
  case True
  let ?s0 = "s\<lparr>suspended := take i (suspended s) @ drop (Suc i) (suspended s)\<rparr>"
  have "responseCallbacksMap (resume_reply e i s)
          = responseCallbacksMap (snd (init_callback_resume e (suspended s ! i) ?s0))"
    using True by (simp add: resume_reply_def split: prod.splits option.splits)
  with rcm_init_callback_resume [of e "suspended s ! i" ?s0] show ?thesis by auto
next
  case False
  then show ?thesis by (simp add: resume_reply_def)
qed

lemma rcm_subscribe [simp]:
  "responseCallbacksMap (snd (subscribe subject s)) = responseCallbacksMap s"
  "promises (snd (subscribe subject s)) = promises s"
  "races (snd (subscribe subject s)) = races s"
  by (simp_all add: subscribe_def)

lemma rcm_subscribe_message [simp]:
  "responseCallbacksMap (subscribe_message e cb m s) = responseCallbacksMap s"
  "promises (subscribe_message e cb m s) = promises s"
  "races (subscribe_message e cb m s) = races s"
  by (simp_all add: subscribe_message_def Let_def split: option.splits sum.splits)

lemma distinct_step:
  assumes "distinct (map fst (responseCallbacksMap s))"
  shows "distinct (map fst (responseCallbacksMap (step e cb a s)))"
proof (cases a)
  case (Resumes i)
  with assms show ?thesis
    using rcm_resume_reply [of e i s] by (auto simp: distinct_delete)
next
  case (TimerFires i)
  with assms show ?thesis
    using rcm_fire_timer [of i s] by (auto simp: distinct_delete)
qed (use assms in \<open>simp_all add: rcm_sendMessage rcm_sendRawMessage
       rcm_sendMessageWithTimeout distinct_update configureAvailableEvents_def
       configureSecretManager_def\<close>)

lemma distinct_run:
  "distinct (map fst (responseCallbacksMap s))
   \<Longrightarrow> distinct (map fst (responseCallbacksMap (run e cb acts s)))"
  by (induction acts arbitrary: s) (simp_all add: distinct_step)

lemma distinct_entries:
  "distinct (map fst xs) \<Longrightarrow> length (filter (\<lambda>kv. fst kv = k) xs) \<le> Suc 0"
  by (induction xs) (auto simp: filter_empty_conv rev_image_eqI)

lemma connection_publish_fields [simp]:
  "responseCallbacksMap (snd (connection_publish subject bytes opts s)) = responseCallbacksMap s"
  "promises (snd (connection_publish subject bytes opts s)) = promises s"
  "races (snd (connection_publish subject bytes opts s)) = races s"
  "timers (snd (connection_publish subject bytes opts s)) = timers s"
  "unhandled (snd (connection_publish subject bytes opts s)) = unhandled s"
  by (simp_all add: connection_publish_def)

lemma async_unobserved_fields [simp]:
  "responseCallbacksMap (async_unobserved r) = responseCallbacksMap (snd r)"
  "promises (async_unobserved r) = promises (snd r)"
  "races (async_unobserved r) = races (snd r)"
  "timers (async_unobserved r) = timers (snd r)"
  by (simp_all add: async_unobserved_def split: prod.splits sum.splits)

lemma sendMessage_executor_fields:
  "responseCallbacksMap (snd (sendMessage_executor e subject data True mid p s))
     = AList.update mid (SendCb p) (responseCallbacksMap s)"
  "promises (snd (sendMessage_executor e subject data True mid p s)) = promises s"
  "races (snd (sendMessage_executor e subject data True mid p s)) = races s"
  "timers (snd (sendMessage_executor e subject data True mid p s)) = timers s"
  by (simp_all add: sendMessage_executor_def Let_def split: prod.splits sum.splits)

lemma sendMessage_shape:
  assumes "sendMessage e subject data True (Some mid) uuid s = (mp, s1)"
  shows "mp = length (promises s)"
    and "promises s1 = promises s @ [Pending]"
    and "races s1 = races s"
    and "timers s1 = timers s"
    and "responseCallbacksMap s1 = AList.update mid (SendCb (length (promises s))) (responseCallbacksMap s)"
  using assms
  by (auto simp: sendMessage_def new_promise_def sendMessage_executor_fields)

lemma sendMessageWithTimeout_shape:
  assumes "sendMessageWithTimeout e subject T data uuid s = (rp, s1)"
  shows "rp = length (promises s) + 2"
    and "promises s1 = promises s @ [Pending, Pending, Pending]"
    and "races s1 = races s @ [(length (promises s), length (promises s) + 2),
                               (length (promises s) + 1, length (promises s) + 2)]"
    and "timers s1 = timers s @ [\<lparr>t_timeout = T, t_messageId = uuid, t_subject = subject,
                                   t_promise = length (promises s) + 1\<rparr>]"
    and "responseCallbacksMap s1
           = AList.update uuid (SendCb (length (promises s))) (responseCallbacksMap s)"
proof -
  obtain mp sm where sm: "sendMessage e subject data True (Some uuid) uuid s = (mp, sm)"
    by (cases "sendMessage e subject data True (Some uuid) uuid s")
  note sh = sendMessage_shape [OF sm]
  have eq: "(rp, s1) = promise_race [mp, length (promises sm)]
              (sm\<lparr>promises := promises sm @ [Pending],
                  timers := timers sm @ [\<lparr>t_timeout = T, t_messageId = uuid, t_subject = subject,
                                           t_promise = length (promises sm)\<rparr>]\<rparr>)"
    using assms by (simp add: sendMessageWithTimeout_def sm new_promise_def del: promise_race.simps)
  show "rp = length (promises s) + 2"
    and "promises s1 = promises s @ [Pending, Pending, Pending]"
    and "races s1 = races s @ [(length (promises s), length (promises s) + 2),
                               (length (promises s) + 1, length (promises s) + 2)]"
    and "timers s1 = timers s @ [\<lparr>t_timeout = T, t_messageId = uuid, t_subject = subject,
                                   t_promise = length (promises s) + 1\<rparr>]"
    and "responseCallbacksMap s1
           = AList.update uuid (SendCb (length (promises s))) (responseCallbacksMap s)"
    using eq by (simp_all add: sh new_promise_def nth_append Let_def)
qed

lemma init_callback_keeps [simp]:
  "timers (init_callback e err m s) = timers s"
  "races (init_callback e err m s) = races s"
  "length (promises (init_callback e err m s)) = length (promises s)"
  by (simp_all add: init_callback_eq Let_def
        split: option.splits sum.splits)

lemma invoke_follower:
  assumes "owner fn < length (promises s)" and "promises s ! owner fn = Pending"
      and "(owner fn, r) \<in> set (races s)"
      and "r < length (promises s)" and "promises s ! r = Pending"
  shows "promises (invoke fn b er c s) ! r \<noteq> Pending"
  using assms by (cases fn) (simp_all add: Let_def settle_follower)

lemma init_callback_settles_follower:
  assumes "msg_headers m = Some h"
      and "map_of (responseCallbacksMap s) (hdr_get h ''messageId'') = Some fn"
      and "decode e (msg_data m) = Inr v"
      and "owner fn < length (promises s)" and "promises s ! owner fn = Pending"
      and "(owner fn, r) \<in> set (races s)"
      and "r < length (promises s)" and "promises s ! r = Pending"
  shows "promises (init_callback e None m s) ! r \<noteq> Pending"
  using assms(1-3) invoke_follower [OF assms(4-8)]
    invoke_follower [of fn "s\<lparr>events := evs\<rparr>" r for evs]
    invoke_follower [of fn "s\<lparr>events := evs, console := cs\<rparr>" r for evs cs]
    assms(4-8)
  by (simp add: init_callback_eq Let_def
        split: sum.splits)

lemma delete_absent: "map_of al k = None \<Longrightarrow> AList.delete k al = al"
  by (simp add: map_of_eq_None_iff)

lemma keeps_refl [simp]: "keeps s s"
  by (simp add: keeps_def)

lemma keeps_trans: "keeps s s' \<Longrightarrow> keeps s' s'' \<Longrightarrow> keeps s s''"
proof -
  assume a: "keeps s s'" and b: "keeps s' s''"
  have "promises s'' ! r = promises s ! r"
    if "r < length (promises s)" "promises s ! r \<noteq> Pending" for r
  proof -
    from a that have 1: "promises s' ! r = promises s ! r" and 2: "r < length (promises s')"
      by (auto simp: keeps_def)
    with b that show ?thesis by (auto simp: keeps_def)
  qed
  with a b show ?thesis by (auto simp: keeps_def)
qed

lemma keeps_same:
  "promises s' = promises s \<Longrightarrow> races s' = races s \<Longrightarrow> keeps s s'"
  by (simp add: keeps_def)

lemma keeps_settle: "keeps s (settle p out s)"
  by (simp add: keeps_def settle_settled)

lemma keeps_invoke: "keeps s (invoke fn b er c s)"
proof -
  have "keeps (s\<lparr>events := evs\<rparr>) (settle p out (s\<lparr>events := evs\<rparr>))" for evs p out
    by (rule keeps_settle)
  then have "keeps s (settle p out (s\<lparr>events := evs\<rparr>))" for evs p out
    by (simp add: keeps_def)
  then show ?thesis by (cases fn) (simp_all add: Let_def)
qed

lemma keeps_new_promise: "keeps s (snd (new_promise s))"
  by (simp add: keeps_def new_promise_def nth_append)

lemma keeps_promise_race: "keeps s (snd (promise_race srcs s))"
  by (auto simp: keeps_def new_promise_def nth_append Let_def split: list.splits)

lemma keeps_publish: "keeps s (snd (publish e subject data reply s))"
  by (rule keeps_same) (simp_all add: publish_def connection_publish_def Let_def split: prod.splits sum.splits)

lemma keeps_cong:
  "keeps s s' \<Longrightarrow> promises s'' = promises s' \<Longrightarrow> races s'' = races s' \<Longrightarrow> keeps s s''"
  by (simp add: keeps_def)

lemma sendMessage_executor_promises:
  "promises (snd (sendMessage_executor e subject data irc mid p s))
     = (if irc then promises s else promises (settle p (Resolved JNull) s))"
  "races (snd (sendMessage_executor e subject data irc mid p s)) = races s"
  by (simp_all add: sendMessage_executor_def Let_def split: prod.splits sum.splits)

lemma sendRawMessage_executor_promises:
  "promises (snd (sendRawMessage_executor e subject data mid p s)) = promises s"
  "races (snd (sendRawMessage_executor e subject data mid p s)) = races s"
  by (simp_all add: sendRawMessage_executor_def Let_def split: prod.splits sum.splits)

lemma keeps_sendMessage: "keeps s (snd (sendMessage e subject data irc ext uuid s))"
proof -
  let ?s0 = "snd (new_promise s)"
  have 0: "keeps s ?s0" by (rule keeps_new_promise)
  let ?x = "snd (sendMessage e subject data irc ext uuid s)"
  have x: "promises ?x = (if irc then promises ?s0
                          else promises (settle (length (promises s)) (Resolved JNull) ?s0))"
          "races ?x = races ?s0"
    by (simp_all add: sendMessage_def new_promise_def sendMessage_executor_promises)
  show ?thesis
  proof (cases irc)
    case True
    from keeps_cong [OF 0] True x show ?thesis by simp
  next
    case False
    have "keeps s (settle (length (promises s)) (Resolved JNull) ?s0)"
      by (rule keeps_trans [OF 0 keeps_settle])
    from keeps_cong [OF this] False x show ?thesis by simp
  qed
qed

lemma keeps_sendRawMessage: "keeps s (snd (sendRawMessage e subject data uuid s))"
  by (rule keeps_cong [OF keeps_new_promise [of s]])
     (simp_all add: sendRawMessage_def new_promise_def sendRawMessage_executor_promises)

lemma keeps_sendMessageWithTimeout:
  "keeps s (snd (sendMessageWithTimeout e subject T data uuid s))"
proof -
  obtain mp sm where sm: "sendMessage e subject data True (Some uuid) uuid s = (mp, sm)"
    by (cases "sendMessage e subject data True (Some uuid) uuid s")
  have 1: "keeps s sm" using keeps_sendMessage [of s e subject data True "Some uuid" uuid] sm by simp
  let ?s3 = "sm\<lparr>promises := promises sm @ [Pending],
                  timers := timers sm @ [\<lparr>t_timeout = T, t_messageId = uuid, t_subject = subject,
                                           t_promise = length (promises sm)\<rparr>]\<rparr>"
  have 2: "keeps sm ?s3" by (simp add: keeps_def nth_append)
  have 3: "keeps ?s3 (snd (promise_race [mp, length (promises sm)] ?s3))"
    by (rule keeps_promise_race)
  have "snd (sendMessageWithTimeout e subject T data uuid s)
          = snd (promise_race [mp, length (promises sm)] ?s3)"
    by (simp add: sendMessageWithTimeout_def sm new_promise_def del: promise_race.simps)
  with keeps_trans [OF 1 keeps_trans [OF 2 3]] show ?thesis by simp
qed

lemma promises_invoke_frame:
  "promises (invoke fn b er c (s\<lparr>events := evs\<rparr>)) = promises (invoke fn b er c s)"
  "promises (invoke fn b er c (s\<lparr>events := evs, console := cs\<rparr>)) = promises (invoke fn b er c s)"
  by (cases fn; simp add: Let_def settle_def)+

lemma init_callback_promises:
  "promises (init_callback e err m s) = promises s
   \<or> (\<exists>fn b er c. promises (init_callback e err m s) = promises (invoke fn b er c s))"
proof (cases err)
  case (Some er)
  then show ?thesis
    by (simp add: init_callback_eq)
next
  case None
  show ?thesis
  proof (cases "msg_headers m")
    case no: None
    with None show ?thesis
      by (simp add: init_callback_eq)
  next
    case (Some h)
    show ?thesis
    proof (cases "map_of (responseCallbacksMap s) (hdr_get h ''messageId'')")
      case no: None
      with None Some show ?thesis
        by (simp add: init_callback_eq)
    next
      case fn: (Some fn)
      show ?thesis
      proof (cases "decode e (msg_data m)")
        case (Inl er)
        with None Some fn show ?thesis
          by (simp add: init_callback_eq)
      next
        case (Inr v)
        with None Some fn have "\<exists>b er c. promises (init_callback e err m s) = promises (invoke fn b er c s)"
          by (cases "verify e (Some (hdr_get h ''serviceToken'')) (secretManager s)")
             (auto simp: init_callback_eq Let_def
                promises_invoke_frame)
        then show ?thesis by blast
      qed
    qed
  qed
qed

lemma keeps_init_callback: "keeps s (init_callback e err m s)"
proof -
  have r: "races (init_callback e err m s) = races s" by simp
  from init_callback_promises [of e err m s] show ?thesis
  proof
    assume "promises (init_callback e err m s) = promises s"
    with r show ?thesis by (simp add: keeps_same)
  next
    assume "\<exists>fn b er c. promises (init_callback e err m s) = promises (invoke fn b er c s)"
    then obtain fn b er c
      where "promises (init_callback e err m s) = promises (invoke fn b er c s)" by blast
    from keeps_cong [OF keeps_invoke this] r show ?thesis by simp
  qed
qed

lemma keeps_fire_timer: "keeps s (fire_timer i s)"
proof (cases "i < length (timers s)")
  case True
  let ?b = "s\<lparr>timers := take i (timers s) @ drop (Suc i) (timers s),
                responseCallbacksMap := AList.delete (t_messageId (timers s ! i)) (responseCallbacksMap s)\<rparr>"
  have "keeps s ?b" by (simp add: keeps_def)
  from keeps_trans [OF this keeps_settle] True show ?thesis
    by (simp add: fire_timer_def Let_def)
next
  case False
  then show ?thesis by (simp add: fire_timer_def)
qed

lemma keeps_getMessages_callback: "keeps s (getMessages_callback e subject cb nr m s)"
  by (rule keeps_same)
     (simp_all add: getMessages_callback_def getMessages_try_def respond_def Let_def
        split: option.splits sum.splits prod.splits)

lemma invoke_promises_cong:
  "promises s' = promises s \<Longrightarrow> races s' = races s
   \<Longrightarrow> promises (invoke fn b er c s') = promises (invoke fn b er c s)"
  by (cases fn) (simp_all add: Let_def settle_def)

lemma keeps_init_callback_resume: "keeps s (snd (init_callback_resume e k s))"
proof -
  have inv: "keeps s ((invoke fn b er c s')\<lparr>responseCallbacksMap := t\<rparr>)"
    if "promises s' = promises s" "races s' = races s" for fn b er c s' t
  proof -
    have "promises ((invoke fn b er c s')\<lparr>responseCallbacksMap := t\<rparr>)
            = promises (invoke fn b er c s)"
      using invoke_promises_cong [OF that] by simp
    moreover have "races ((invoke fn b er c s')\<lparr>responseCallbacksMap := t\<rparr>) = races s"
      using that by simp
    ultimately show ?thesis
      using keeps_cong [OF keeps_invoke [of s fn b er c]] by simp
  qed
  show ?thesis
  proof (cases k)
    case (AwaitDecode mid tok fn data)
    then show ?thesis
      by (auto simp: Let_def keeps_same inv split: sum.splits)
  next
    case (AwaitVerify mid fn msg res)
    then show ?thesis
      by (cases res) (simp_all add: Let_def inv)
  qed
qed

lemma keeps_resume_reply: "keeps s (resume_reply e i s)"
proof (cases "i < length (suspended s)")
  case True
  let ?s0 = "s\<lparr>suspended := take i (suspended s) @ drop (Suc i) (suspended s)\<rparr>"
  let ?r = "init_callback_resume e (suspended s ! i) ?s0"
  have 0: "keeps s ?s0" by (simp add: keeps_def)
  have 1: "keeps s (snd ?r)"
    by (rule keeps_trans [OF 0 keeps_init_callback_resume])
  have "promises (resume_reply e i s) = promises (snd ?r)"
       "races (resume_reply e i s) = races (snd ?r)"
    using True by (simp_all add: resume_reply_def split: prod.splits option.splits)
  with keeps_cong [OF 1] show ?thesis by simp
next
  case False
  then show ?thesis by (simp add: resume_reply_def)
qed

lemma keeps_step: "keeps s (step e cb a s)"
  by (cases a)
     (simp_all add: keeps_publish keeps_sendMessage keeps_sendRawMessage
        keeps_sendMessageWithTimeout keeps_resume_reply keeps_fire_timer
        keeps_getMessages_callback keeps_same configureAvailableEvents_def
        configureSecretManager_def)

lemma keeps_run: "keeps s (run e cb acts s)"
proof (induction acts arbitrary: s)
  case Nil
  show ?case by simp
next
  case (Cons a acts)
  show ?case using keeps_trans [OF keeps_step Cons] by simp
qed

lemma waiting_eq:
  "waiting =
     \<lparr>replySubject = ''r1'',
      responseCallbacksMap = [(''id1'', SendCb 0), (''id2'', RawCb 1)],
      availableEvents = None, secretManager = Some fixture_store, privateKey = Some ''ka'',
      connected = True,
      published =
        [\<lparr>env_subject = ''svc.y'', env_data = JStr ''ping'',
          env_headers = Some [(''messageId'', ''id1''), (''serviceToken'', ''svc-a|ka'')],
          env_reply = Some ''r1''\<rparr>,
         \<lparr>env_subject = ''svc.y'', env_data = JStr ''ping'',
          env_headers = Some [(''messageId'', ''id2''), (''serviceToken'', ''svc-a|ka'')],
          env_reply = Some ''r1''\<rparr>],
      responses = [], promises = [Pending, Pending], races = [], timers = [], console = [],
      unhandled = [], events = [],
      subscriptions = [], suspended = []\<rparr>"
  by (simp add: waiting_def op_simps fixture_simps Let_def)

lemmas reply_simps =
  init_callback_eq reply_msg_def hdr_get_def
  verify_def settle_def Let_def

lemma timed_eq:
  "timed =
     (2, \<lparr>replySubject = ''r1'',
      responseCallbacksMap = [(''id1'', SendCb 0)],
      availableEvents = None, secretManager = None, privateKey = None,
      connected = True,
      published =
        [\<lparr>env_subject = ''svc.y'', env_data = JStr ''ping'',
          env_headers = Some [(''messageId'', ''id1''), (''serviceToken'', [])],
          env_reply = Some ''r1''\<rparr>],
      responses = [], promises = [Pending, Pending, Pending], races = [(0, 2), (1, 2)],
      timers = [\<lparr>t_timeout = 50, t_messageId = ''id1'', t_subject = ''svc.y'', t_promise = 1\<rparr>],
      console = [], unhandled = [], events = [],
      subscriptions = [], suspended = []\<rparr>)"
  by (simp add: timed_def sendMessageWithTimeout_def op_simps fixture_simps Let_def)

lemma timed_later_eq:
  "timed_later =
     \<lparr>replySubject = ''r1'',
      responseCallbacksMap = [(''id1'', SendCb 0), (''id5'', RawCb 3)],
      availableEvents = None, secretManager = None, privateKey = None,
      connected = True,
      published =
        [\<lparr>env_subject = ''svc.y'', env_data = JStr ''ping'',
          env_headers = Some [(''messageId'', ''id1''), (''serviceToken'', [])],
          env_reply = Some ''r1''\<rparr>,
         \<lparr>env_subject = ''svc.y'', env_data = JStr ''other'',
          env_headers = Some [(''messageId'', ''id5''), (''serviceToken'', [])],
          env_reply = Some ''r1''\<rparr>],
      responses = [], promises = [Pending, Pending, Pending, Pending], races = [(0, 2), (1, 2)],
      timers = [\<lparr>t_timeout = 50, t_messageId = ''id1'', t_subject = ''svc.y'', t_promise = 1\<rparr>],
      console = [], unhandled = [], events = [],
      subscriptions = [], suspended = []\<rparr>"
  by (simp add: timed_later_def timed_eq op_simps fixture_simps Let_def)

lemma keeps_follower:
  assumes "keeps s1 s2" and "(p, r) \<in> set (races s1)"
      and "p < length (promises s1)" and "r < length (promises s1)"
  shows "(p, r) \<in> set (races s2)" and "p < length (promises s2)" and "r < length (promises s2)"
  using assms by (auto simp: keeps_def)

section \<open>Properties of the reply listener\<close>

text \<open>
  What holds of the table whatever the interleaving: its keys stay distinct along every
  run from a fresh instance, and a reply with headers whose id has no entry changes
  nothing and starts nothing.
\<close>

lemma entries_at_most_one:
  "length (entries_for mid (run e cb acts (fresh rs))) \<le> 1"
proof -
  have "distinct (map fst (responseCallbacksMap (fresh rs :: 'a nats)))"
    by (simp add: fresh_def)
  then have "distinct (map fst (responseCallbacksMap (run e cb acts (fresh rs))))"
    by (rule distinct_run)
  then show ?thesis
    unfolding entries_for_def using distinct_entries [of _ mid] by simp
qed

lemma reply_arrives_unknown:
  "msg_headers m = Some h \<Longrightarrow> map_of (responseCallbacksMap s) (hdr_get h ''messageId'') = None
   \<Longrightarrow> reply_arrives e None m s = s"
  by (simp add: reply_arrives_def init_callback_start_def)

text \<open>
  Claim C4: settlement of a pending request is at most once: at most one entry per
  \<^verbatim>\<open>messageId\<close>; a reply that settles an entry removes it, and a duplicate, late or
  unknown reply then finds no entry and is ignored without raising and without a stored
  callback being called a second time.

  The reply callback reads the entry first and deletes it last, with
  \<^verbatim>\<open>await this.codec.decode\<close> and \<^verbatim>\<open>await JwtValidator.verify\<close> in between, and the
  client starts the call for the next message without waiting. With a request pending
  under \<open>id1\<close> and its reply delivered twice in a row, both calls find the entry and are
  parked at the decoding; run on in turn, each reaches the stored callback, which is
  called twice (the promise settles once, the second call has no effect on it). The
  timer of \<open>sendMessageWithTimeout\<close> deletes the entry before it rejects. And a message
  without headers on the reply subject makes the callback raise: it reads
  \<^verbatim>\<open>msg.headers.get\<close> where the callback of \<open>getMessages\<close> reads \<^verbatim>\<open>msg.headers?.get\<close>.
\<close>

theorem duplicate_reply_calls_callback_twice:
  "map_of (responseCallbacksMap waiting) ''id1'' = Some (SendCb 0)
   \<and> suspended
         (run fixture_env fixture_handler
            [ReplyArrives None (reply_msg ''id1'' ''svc-a|ka'' (JObj [(''body'', JStr ''pong'')])),
             ReplyArrives None (reply_msg ''id1'' ''svc-a|ka'' (JObj [(''body'', JStr ''pong'')]))]
            waiting)
       = [AwaitDecode ''id1'' ''svc-a|ka'' (SendCb 0) (JObj [(''body'', JStr ''pong'')]),
          AwaitDecode ''id1'' ''svc-a|ka'' (SendCb 0) (JObj [(''body'', JStr ''pong'')])]
   \<and> events
         (run fixture_env fixture_handler
            [ReplyArrives None (reply_msg ''id1'' ''svc-a|ka'' (JObj [(''body'', JStr ''pong'')])),
             ReplyArrives None (reply_msg ''id1'' ''svc-a|ka'' (JObj [(''body'', JStr ''pong'')])),
             Resumes 0, Resumes 0, Resumes 0, Resumes 0]
            waiting)
       = [VerifyCalled (Some ''svc-a|ka''), VerifyCalled (Some ''svc-a|ka''),
          CallbackInvoked (SendCb 0) (JStr ''pong'') JUndefined JUndefined,
          CallbackInvoked (SendCb 0) (JStr ''pong'') JUndefined JUndefined]
   \<and> promises
         (run fixture_env fixture_handler
            [ReplyArrives None (reply_msg ''id1'' ''svc-a|ka'' (JObj [(''body'', JStr ''pong'')])),
             ReplyArrives None (reply_msg ''id1'' ''svc-a|ka'' (JObj [(''body'', JStr ''pong'')])),
             Resumes 0, Resumes 0, Resumes 0, Resumes 0]
            waiting)
       = [Resolved (JStr ''pong''), Pending]
   \<and> unhandled
         (run fixture_env fixture_handler
            [ReplyArrives None \<lparr>msg_headers = None, msg_data = JObj [(''body'', JStr ''pong'')]\<rparr>]
            waiting)
       = [headers_undefined]"
  by (simp add: waiting_eq reply_arrives_def resume_reply_def init_callback_start_def
        reply_msg_def hdr_get_def verify_def settle_def Let_def fixture_simps)

text \<open>
  A reply with a truthy payload whose token fails verification, arriving for a pending
  entry and handled without interruption: the stored callback is called with
  \<^verbatim>\<open>(null, message, 401)\<close>, the entry is removed and nothing is thrown. What the promise
  is rejected with is the callback's choice.
\<close>

lemma reply_verification_failure:
  assumes "msg_headers m = Some h"
      and "map_of (responseCallbacksMap s) (hdr_get h ''messageId'') = Some fn"
      and "decode e (msg_data m) = Inr v" and "truthy v"
      and "verify e (Some (hdr_get h ''serviceToken'')) (secretManager s) = Inl er"
      and "owner fn < length (promises s)" and "promises s ! owner fn = Pending"
  shows "events (init_callback e None m s)
           = events s @ [VerifyCalled (Some (hdr_get h ''serviceToken'')),
                         CallbackInvoked fn JNull (JStr (message er)) (JNum 401)]
       \<and> promises (init_callback e None m s) ! owner fn
           = (case fn of
                SendCb p \<Rightarrow> Rejected (MessageError (JStr (message er)) (JNum 401))
              | RawCb p \<Rightarrow> Rejected (Bare (JStr (message er))))
       \<and> map_of (responseCallbacksMap (init_callback e None m s)) (hdr_get h ''messageId'') = None
       \<and> unhandled (init_callback e None m s) = unhandled s"
proof -
  let ?s' = "s\<lparr>events := events s @ [VerifyCalled (Some (hdr_get h ''serviceToken''))]\<rparr>"
  let ?s'' = "?s'\<lparr>console := console ?s' @ [LogText ''Reply validation failed:'' (message er)]\<rparr>"
  let ?s1 = "invoke fn JNull (JStr (message er)) (JNum 401) ?s''"
  have body: "init_callback e None m s
                = ?s1\<lparr>responseCallbacksMap :=
                        AList.delete (hdr_get h ''messageId'') (responseCallbacksMap ?s1)\<rparr>"
    using assms(1-5) by (simp add: init_callback_eq Let_def)
  have msg: "truthy (JStr (message er))"
    using verify_error_message [OF assms(5)] by simp
  have "owner fn < length (promises ?s'')" "promises ?s'' ! owner fn = Pending"
    using assms(6,7) by simp_all
  from invoke_owner [OF this, of JNull "JStr (message er)" "JNum 401"] msg
  have out: "promises ?s1 ! owner fn
           = (case fn of
                SendCb p \<Rightarrow> Rejected (MessageError (JStr (message er)) (JNum 401))
              | RawCb p \<Rightarrow> Rejected (Bare (JStr (message er))))"
    by simp
  show ?thesis
    using out by (simp add: body)
qed

text \<open>
  Claim C7: when the token of a reply fails verification while an entry is pending for
  its \<^verbatim>\<open>messageId\<close>, the waiting caller's promise is rejected with code 401, the entry is
  removed and the listener goes on.

  The listener passes 401 to the stored callback, and the callback of \<open>sendMessage\<close>
  rejects with \<^verbatim>\<open>new MessageError(error, code)\<close>. The callback of \<open>sendRawMessage\<close> takes
  the same three arguments and calls \<^verbatim>\<open>reject(error)\<close>: with one request of each kind
  pending and a reply carrying a token that the key of its claimed signer does not
  validate, the caller of \<open>sendMessage\<close> is rejected with the code and the caller of
  \<open>sendRawMessage\<close> with the bare message.
\<close>

theorem raw_reply_rejection_drops_code:
  "map_of (responseCallbacksMap waiting) ''id1'' = Some (SendCb 0)
   \<and> map_of (responseCallbacksMap waiting) ''id2'' = Some (RawCb 1)
   \<and> promises waiting = [Pending, Pending]
   \<and> verify fixture_env (Some ''svc-b|ka'') (secretManager waiting)
       = Inl (Error ''JWTValidator: invalid or expired token'')
   \<and> promises (init_callback fixture_env None
                 (reply_msg ''id1'' ''svc-b|ka'' (JObj [(''body'', JStr ''pong'')])) waiting) ! 0
       = Rejected (MessageError (JStr ''JWTValidator: invalid or expired token'') (JNum 401))
   \<and> promises (init_callback fixture_env None
                 (reply_msg ''id2'' ''svc-b|ka'' (JObj [(''body'', JStr ''pong'')])) waiting) ! 1
       = Rejected (Bare (JStr ''JWTValidator: invalid or expired token''))
   \<and> events (init_callback fixture_env None
                 (reply_msg ''id2'' ''svc-b|ka'' (JObj [(''body'', JStr ''pong'')])) waiting)
       = [VerifyCalled (Some ''svc-b|ka''),
          CallbackInvoked (RawCb 1) JNull (JStr ''JWTValidator: invalid or expired token'')
            (JNum 401)]
   \<and> promises
         (run fixture_env fixture_handler
            [ReplyArrives None (reply_msg ''id2'' ''svc-b|ka'' (JObj [(''body'', JStr ''pong'')])),
             Resumes 0, Resumes 0]
            waiting) ! 1
       = Rejected (Bare (JStr ''JWTValidator: invalid or expired token''))"
  by (simp add: waiting_eq reply_simps reply_arrives_def resume_reply_def
        init_callback_start_def fixture_simps)

text \<open>
  Claim C10: a reply that carries the id of a pending entry and decodes to a falsy
  payload has the stored callback called with \<^verbatim>\<open>null\<close> alone, which resolves a pending
  promise with \<^verbatim>\<open>null\<close>; the resulting state does not depend on the token, and the entry
  is removed. \<open>verify\<close> is called exactly when the decoded payload is truthy.
\<close>

theorem falsy_reply_resolves_unverified:
  assumes "msg_headers m = Some h"
      and "map_of (responseCallbacksMap s) (hdr_get h ''messageId'') = Some fn"
      and "decode e (msg_data m) = Inr v"
  shows "(\<not> truthy v \<longrightarrow>
            init_callback e None m s
              = (invoke fn JNull JUndefined JUndefined s)
                  \<lparr>responseCallbacksMap :=
                     AList.delete (hdr_get h ''messageId'') (responseCallbacksMap s)\<rparr>
            \<and> events (init_callback e None m s)
                = events s @ [CallbackInvoked fn JNull JUndefined JUndefined]
            \<and> (owner fn < length (promises s) \<and> promises s ! owner fn = Pending
                \<longrightarrow> promises (init_callback e None m s) ! owner fn = Resolved JNull))
       \<and> map_of (responseCallbacksMap (init_callback e None m s)) (hdr_get h ''messageId'') = None
       \<and> ((\<exists>t. VerifyCalled t \<in> set (drop (length (events s)) (events (init_callback e None m s))))
            = truthy v)"
proof -
  have falsy: "init_callback e None m s
              = (invoke fn JNull JUndefined JUndefined s)
                  \<lparr>responseCallbacksMap :=
                     AList.delete (hdr_get h ''messageId'') (responseCallbacksMap s)\<rparr>"
    if "\<not> truthy v"
    using assms that by (simp add: init_callback_eq)
  have res: "promises (init_callback e None m s) ! owner fn = Resolved JNull"
    if "\<not> truthy v" "owner fn < length (promises s)" "promises s ! owner fn = Pending"
    using invoke_owner [OF that(2,3), of JNull JUndefined JUndefined] falsy [OF that(1)] by simp
  have ver: "(\<exists>t. VerifyCalled t \<in> set (drop (length (events s)) (events (init_callback e None m s))))
              = truthy v"
    using assms
    by (auto simp: init_callback_eq Let_def
          split: sum.splits)
  show ?thesis
    using falsy res ver init_callback_removes [OF assms] by simp
qed

theorem falsy_reply_resolves_unverified_witness:
  "map_of (responseCallbacksMap waiting) ''id1'' = Some (SendCb 0)
   \<and> decode fixture_env JNull = Inr JNull
   \<and> verify fixture_env (Some ''svc-b|ka'') (secretManager waiting)
       = Inl (Error ''JWTValidator: invalid or expired token'')
   \<and> promises waiting ! 0 = Pending
   \<and> promises (init_callback fixture_env None (reply_msg ''id1'' ''svc-b|ka'' JNull) waiting) ! 0
       = Resolved JNull
   \<and> events (init_callback fixture_env None (reply_msg ''id1'' ''svc-b|ka'' JNull) waiting)
       = [CallbackInvoked (SendCb 0) JNull JUndefined JUndefined]
   \<and> map_of (responseCallbacksMap
               (init_callback fixture_env None (reply_msg ''id1'' ''svc-b|ka'' JNull) waiting)) ''id1''
       = None"
  using falsy_reply_resolves_unverified [where e = fixture_env and s = waiting
          and m = "reply_msg ''id1'' ''svc-b|ka'' JNull"
          and h = "[(''messageId'', ''id1''), (''serviceToken'', ''svc-b|ka'')]"
          and fn = "SendCb 0" and v = JNull]
  by (simp add: waiting_eq reply_simps fixture_simps)

section \<open>Properties of the timeout race\<close>

text \<open>
  Claim C8: \<open>sendMessageWithTimeout\<close> stores the entry, arms the timer and returns the
  race of the message promise and the timer's promise, all three pending. After any
  further calls and deliveries (\<open>acts\<close>), if the timer is still armed and nothing has
  settled the race, the timer going off removes the entry of the generated
  \<^verbatim>\<open>messageId\<close> and rejects the returned promise with the error
  \<^verbatim>\<open>Timeout exceed (<subject>)\<close>; a reply that comes later changes nothing. If instead a
  reply that decodes comes while the entry and the race are pending, it settles the
  returned promise and removes the entry; whatever follows (\<open>acts'\<close>), the timer going off
  later, with no entry under the id, leaves the table and the outcome of the returned
  promise as they are.
\<close>

theorem timeout_race:
  assumes call: "sendMessageWithTimeout e subject T data uuid s = (rp, s1)"
      and hd: "msg_headers m = Some h" and mid: "hdr_get h ''messageId'' = uuid"
      and tm: "tm = \<lparr>t_timeout = T, t_messageId = uuid, t_subject = subject,
                      t_promise = length (promises s) + 1\<rparr>"
      and s2: "s2 = run e cb acts s1"
      and s3: "s3 = init_callback e None m s2"
      and s4: "s4 = run e cb acts' s3"
  shows "timers s1 ! length (timers s) = tm
       \<and> map_of (responseCallbacksMap s1) uuid = Some (SendCb (length (promises s)))
       \<and> promises s1 ! length (promises s) = Pending
       \<and> promises s1 ! t_promise tm = Pending
       \<and> promises s1 ! rp = Pending
       \<and> (j < length (timers s2) \<and> timers s2 ! j = tm
            \<and> promises s2 ! t_promise tm = Pending \<and> promises s2 ! rp = Pending
          \<longrightarrow> map_of (responseCallbacksMap (fire_timer j s2)) uuid = None
              \<and> promises (fire_timer j s2) ! rp
                  = Rejected (PlainError (''Timeout exceed ('' @ subject @ '')''))
              \<and> init_callback e None m (fire_timer j s2) = fire_timer j s2)
       \<and> (map_of (responseCallbacksMap s2) uuid = Some (SendCb (length (promises s)))
            \<and> promises s2 ! length (promises s) = Pending \<and> promises s2 ! rp = Pending
            \<and> decode e (msg_data m) = Inr v
          \<longrightarrow> promises s3 ! rp \<noteq> Pending
              \<and> map_of (responseCallbacksMap s3) uuid = None
              \<and> (j' < length (timers s4) \<and> timers s4 ! j' = tm
                   \<and> map_of (responseCallbacksMap s4) uuid = None
                  \<longrightarrow> responseCallbacksMap (fire_timer j' s4) = responseCallbacksMap s4
                      \<and> promises (fire_timer j' s4) ! rp = promises s3 ! rp))"
proof -
  note sh = sendMessageWithTimeout_shape [OF call]
  let ?n = "length (promises s)"
  let ?out = "Rejected (PlainError (''Timeout exceed ('' @ subject @ '')''))"
  have armed: "timers s1 ! length (timers s) = tm"
    "map_of (responseCallbacksMap s1) uuid = Some (SendCb ?n)"
    "promises s1 ! ?n = Pending" "promises s1 ! t_promise tm = Pending" "promises s1 ! rp = Pending"
    by (simp_all add: sh tm update_conv' nth_append)
  have k12: "keeps s1 s2" unfolding s2 by (rule keeps_run)
  have in1: "(?n + 1, rp) \<in> set (races s1)" "(?n, rp) \<in> set (races s1)"
    "?n + 1 < length (promises s1)" "rp < length (promises s1)" "?n < length (promises s1)"
    by (simp_all add: sh)
  note tr = keeps_follower [OF k12 in1(1) in1(3) in1(4)]
  note mr = keeps_follower [OF k12 in1(2) in1(5) in1(4)]
  have fire: "fire_timer i x
                = settle (?n + 1) ?out
                    (x\<lparr>timers := take i (timers x) @ drop (Suc i) (timers x),
                       responseCallbacksMap := AList.delete uuid (responseCallbacksMap x)\<rparr>)"
    if "i < length (timers x)" "timers x ! i = tm" for i and x :: "'a nats"
    using that by (simp add: fire_timer_def tm Let_def)
  have timer_first:
    "map_of (responseCallbacksMap (fire_timer j s2)) uuid = None
     \<and> promises (fire_timer j s2) ! rp = ?out
     \<and> init_callback e None m (fire_timer j s2) = fire_timer j s2"
    if "j < length (timers s2)" "timers s2 ! j = tm"
       "promises s2 ! t_promise tm = Pending" "promises s2 ! rp = Pending"
  proof -
    have gone: "map_of (responseCallbacksMap (fire_timer j s2)) uuid = None"
      by (simp add: fire [OF that(1,2)])
    have rej: "promises (fire_timer j s2) ! rp = ?out"
      unfolding fire [OF that(1,2)]
      by (rule settle_follower) (use that(3,4) tr in \<open>simp_all add: tm\<close>)
    have late: "init_callback e None m (fire_timer j s2) = fire_timer j s2"
      using gone hd mid by (simp add: init_callback_unknown)
    show ?thesis using gone rej late by simp
  qed
  have reply_first:
    "promises s3 ! rp \<noteq> Pending
     \<and> map_of (responseCallbacksMap s3) uuid = None
     \<and> (j' < length (timers s4) \<and> timers s4 ! j' = tm
          \<and> map_of (responseCallbacksMap s4) uuid = None
         \<longrightarrow> responseCallbacksMap (fire_timer j' s4) = responseCallbacksMap s4
             \<and> promises (fire_timer j' s4) ! rp = promises s3 ! rp)"
    if "map_of (responseCallbacksMap s2) uuid = Some (SendCb ?n)"
       "promises s2 ! ?n = Pending" "promises s2 ! rp = Pending"
       "decode e (msg_data m) = Inr v"
  proof -
    have settled: "promises s3 ! rp \<noteq> Pending"
      unfolding s3
      by (rule init_callback_settles_follower [OF hd _ that(4), where fn = "SendCb ?n"])
         (use that(1-3) mr tr in \<open>simp_all add: mid\<close>)
    have gone: "map_of (responseCallbacksMap s3) uuid = None"
      unfolding s3 using init_callback_removes [OF hd _ that(4), of s2 "SendCb ?n"] that(1)
      by (simp add: mid)
    have len3: "rp < length (promises s3)"
      unfolding s3 using tr(3) by simp
    have k34: "keeps s3 s4" unfolding s4 by (rule keeps_run)
    have same4: "promises s4 ! rp = promises s3 ! rp" "rp < length (promises s4)"
      using k34 len3 settled by (auto simp: keeps_def)
    have late: "responseCallbacksMap (fire_timer j' s4) = responseCallbacksMap s4
                \<and> promises (fire_timer j' s4) ! rp = promises s3 ! rp"
      if "j' < length (timers s4)" "timers s4 ! j' = tm"
         "map_of (responseCallbacksMap s4) uuid = None"
    proof -
      let ?b = "s4\<lparr>timers := take j' (timers s4) @ drop (Suc j') (timers s4),
                     responseCallbacksMap := AList.delete uuid (responseCallbacksMap s4)\<rparr>"
      have "promises (settle (?n + 1) ?out ?b) ! rp = promises ?b ! rp"
        by (rule settle_settled) (use same4 settled in simp_all)
      then show ?thesis
        using that(3) same4 by (simp add: fire [OF that(1,2)] delete_absent)
    qed
    show ?thesis using settled gone late by simp
  qed
  show ?thesis
    using armed timer_first reply_first by simp
qed

theorem timeout_race_witness:
  "sendMessageWithTimeout fixture_env ''svc.y'' 50 (JStr ''ping'') ''id1'' (fresh ''r1'')
     = (2, snd timed)
   \<and> timers timed_later ! 0
       = \<lparr>t_timeout = 50, t_messageId = ''id1'', t_subject = ''svc.y'', t_promise = 1\<rparr>
   \<and> promises timed_later ! 1 = Pending
   \<and> promises timed_later ! 2 = Pending
   \<and> map_of (responseCallbacksMap (fire_timer 0 timed_later)) ''id1'' = None
   \<and> promises (fire_timer 0 timed_later) ! 2 = Rejected (PlainError ''Timeout exceed (svc.y)'')
   \<and> init_callback fixture_env None (reply_msg ''id1'' [] (JObj [(''body'', JStr ''pong'')]))
         (fire_timer 0 timed_later)
       = fire_timer 0 timed_later
   \<and> map_of (responseCallbacksMap timed_later) ''id1'' = Some (SendCb 0)
   \<and> promises timed_later ! 0 = Pending
   \<and> decode fixture_env (JObj [(''body'', JStr ''pong'')]) = Inr (JObj [(''body'', JStr ''pong'')])
   \<and> promises (init_callback fixture_env None
                 (reply_msg ''id1'' [] (JObj [(''body'', JStr ''pong'')])) timed_later) ! 2
       = Resolved (JStr ''pong'')
   \<and> promises (fire_timer 0
                 (init_callback fixture_env None
                    (reply_msg ''id1'' [] (JObj [(''body'', JStr ''pong'')])) timed_later)) ! 2
       = Resolved (JStr ''pong'')"
proof -
  let ?m = "reply_msg ''id1'' [] (JObj [(''body'', JStr ''pong'')])"
  let ?tm = "\<lparr>t_timeout = 50, t_messageId = ''id1'', t_subject = ''svc.y'', t_promise = 1\<rparr>"
  let ?s3 = "init_callback fixture_env None ?m timed_later"
  have call: "sendMessageWithTimeout fixture_env ''svc.y'' 50 (JStr ''ping'') ''id1'' (fresh ''r1'')
                = (2, snd timed)"
    by (simp add: timed_def [symmetric] timed_eq)
  have hd: "msg_headers ?m = Some [(''messageId'', ''id1''), (''serviceToken'', [])]"
    by (simp add: reply_msg_def)
  have mid: "hdr_get [(''messageId'', ''id1''), (''serviceToken'', [])] ''messageId'' = ''id1''"
    by (simp add: hdr_get_def)
  have tm: "?tm = \<lparr>t_timeout = 50, t_messageId = ''id1'', t_subject = ''svc.y'',
                     t_promise = length (promises (fresh ''r1'' :: jsval nats)) + 1\<rparr>"
    by (simp add: fresh_def)
  have s4: "?s3 = run fixture_env fixture_handler [] ?s3"
    by simp
  have dec: "decode fixture_env (JObj [(''body'', JStr ''pong'')]) = Inr (JObj [(''body'', JStr ''pong'')])"
    by (simp add: fixture_env_def)
  have dec': "decode fixture_env (msg_data ?m) = Inr (JObj [(''body'', JStr ''pong'')])"
    by (simp add: fixture_env_def reply_msg_def)
  have zero: "length (promises (fresh ''r1'' :: jsval nats)) = 0"
    by (simp add: fresh_def)
  have st: "timers timed_later ! 0 = ?tm" "promises timed_later ! 1 = Pending"
    "promises timed_later ! 2 = Pending" "promises timed_later ! 0 = Pending"
    "map_of (responseCallbacksMap timed_later) ''id1'' = Some (SendCb 0)"
    "0 < length (timers timed_later)"
    by (simp_all add: timed_later_eq)
  have first: "promises ?s3 ! 2 = Resolved (JStr ''pong'')"
    by (simp add: timed_later_eq reply_simps fixture_simps)
  have tm3: "0 < length (timers ?s3)" "timers ?s3 ! 0 = ?tm"
    using st by simp_all
  from timeout_race [OF call hd mid tm timed_later_def refl s4,
         of 0 "JObj [(''body'', JStr ''pong'')]" 0]
       st dec' first tm3
  show ?thesis
    by (simp add: zero call dec)
qed

section \<open>Properties of inbound access control\<close>

lemmas getMessages_simps =
  getMessages_callback_def getMessages_try_def respond_def Let_def

lemma getMessages_admitted:
  assumes "availableEvents s = None"
  shows "take (Suc (length (events s))) (events (getMessages_callback e subject cb nr m s))
           = events s @ [VerifyCalled (map_option (\<lambda>h. hdr_get h ''serviceToken'') (msg_headers m))]"
  using assms by (simp add: getMessages_simps split: sum.splits)

lemma getMessages_handler:
  assumes "availableEvents s = None"
      and "verify e (map_option (\<lambda>h. hdr_get h ''serviceToken'') (msg_headers m)) (secretManager s)
             = Inr signer"
      and "decode e (msg_data m) = Inr d"
  shows "HandlerInvoked d \<in> set (events (getMessages_callback e subject cb nr m s))"
  using assms by (simp add: getMessages_simps split: sum.splits)

lemma getMessages_forbidden:
  assumes "availableEvents s = Some ae" and "subject \<notin> set ae"
  shows "encode e forbidden_body = Inr bytes \<Longrightarrow>
           getMessages_callback e subject cb False m s
             = respond bytes
                 (case map_option (\<lambda>h. hdr_get h ''messageId'') (msg_headers m) of
                    None \<Rightarrow> []
                  | Some i \<Rightarrow> if i = [] then [] else [(''messageId'', i)]) s"
    and "getMessages_try e subject cb True m s = (Inl ForbiddenException, s)"
    and "getMessages_callback e subject cb True m s
           = s\<lparr>console := console s @ [LogError ForbiddenException]\<rparr>"
    and "events (getMessages_callback e subject cb nr m s) = events s"
  using assms by (simp_all add: getMessages_simps split: sum.splits)

text \<open>
  Claim C9: with no allow-list, the callback of \<open>getMessages\<close> goes on to verify the
  token on every subject, and calls the handler once the token verifies and the payload
  decodes. With an allow-list that lacks the subject, a registration that responds
  sends the encoded body \<^verbatim>\<open>{body: null, error: 'Forbidden', code: 403, name: 'Forbidden',
  message: 'Forbidden'}\<close> under the \<^verbatim>\<open>messageId\<close> of the request, and a registration with
  \<open>noRespond\<close> throws \<^verbatim>\<open>ForbiddenException\<close>, which the callback's own \<^verbatim>\<open>catch\<close> logs;
  in neither case is the token verified or the handler called.
\<close>

theorem inbound_access_control:
  "(availableEvents s = None \<longrightarrow>
      take (Suc (length (events s))) (events (getMessages_callback e subject cb nr m s))
        = events s @ [VerifyCalled (map_option (\<lambda>h. hdr_get h ''serviceToken'') (msg_headers m))]
      \<and> (verify e (map_option (\<lambda>h. hdr_get h ''serviceToken'') (msg_headers m)) (secretManager s)
            = Inr signer
          \<and> decode e (msg_data m) = Inr d
          \<longrightarrow> HandlerInvoked d \<in> set (events (getMessages_callback e subject cb nr m s))))
   \<and> (availableEvents s = Some ae \<and> subject \<notin> set ae \<longrightarrow>
        (encode e forbidden_body = Inr bytes \<longrightarrow>
           getMessages_callback e subject cb False m s
             = respond bytes
                 (case map_option (\<lambda>h. hdr_get h ''messageId'') (msg_headers m) of
                    None \<Rightarrow> []
                  | Some i \<Rightarrow> if i = [] then [] else [(''messageId'', i)]) s)
        \<and> getMessages_try e subject cb True m s = (Inl ForbiddenException, s)
        \<and> getMessages_callback e subject cb True m s
            = s\<lparr>console := console s @ [LogError ForbiddenException]\<rparr>
        \<and> events (getMessages_callback e subject cb nr m s) = events s)
   \<and> js_get forbidden_body ''body'' = JNull
   \<and> js_get forbidden_body ''error'' = JStr ''Forbidden''
   \<and> js_get forbidden_body ''code'' = JNum 403"
proof -
  have body: "js_get forbidden_body ''body'' = JNull \<and> js_get forbidden_body ''error'' = JStr ''Forbidden''
    \<and> js_get forbidden_body ''code'' = JNum 403"
    by (simp add: forbidden_body_def)
  show ?thesis
    using body
    by (auto simp: getMessages_admitted getMessages_forbidden intro: getMessages_handler)
qed

theorem inbound_access_control_witness:
  "availableEvents (fresh ''r1'' :: jsval nats) = None
   \<and> events (getMessages_callback fixture_env ''svc.z'' fixture_handler False
                (reply_msg ''id7'' [] (JStr ''ping'')) (fresh ''r1''))
       = [VerifyCalled (Some []), HandlerInvoked (JStr ''ping'')]
   \<and> availableEvents (configureAvailableEvents [''svc.y''] (fresh ''r1'' :: jsval nats))
       = Some [''svc.y'']
   \<and> encode fixture_env forbidden_body = Inr forbidden_body
   \<and> responses (getMessages_callback fixture_env ''svc.z'' fixture_handler False
                   (reply_msg ''id7'' [] (JStr ''ping''))
                   (configureAvailableEvents [''svc.y''] (fresh ''r1'')))
       = [\<lparr>rsp_data = forbidden_body, rsp_headers = [(''messageId'', ''id7'')]\<rparr>]
   \<and> events (getMessages_callback fixture_env ''svc.z'' fixture_handler False
                (reply_msg ''id7'' [] (JStr ''ping''))
                (configureAvailableEvents [''svc.y''] (fresh ''r1'')))
       = []
   \<and> getMessages_try fixture_env ''svc.z'' fixture_handler True
         (reply_msg ''id7'' [] (JStr ''ping''))
         (configureAvailableEvents [''svc.y''] (fresh ''r1''))
       = (Inl ForbiddenException, configureAvailableEvents [''svc.y''] (fresh ''r1''))"
  using inbound_access_control [where e = fixture_env and subject = "''svc.z''"
          and cb = fixture_handler and nr = False
          and m = "reply_msg ''id7'' [] (JStr ''ping'')" and s = "fresh ''r1''"
          and signer = "[]" and d = "JStr ''ping''"]
        inbound_access_control [where e = fixture_env and subject = "''svc.z''"
          and cb = fixture_handler and nr = False
          and m = "reply_msg ''id7'' [] (JStr ''ping'')"
          and s = "configureAvailableEvents [''svc.y''] (fresh ''r1'')"
          and ae = "[''svc.y'']" and bytes = forbidden_body]
  by (simp add: getMessages_simps reply_msg_def hdr_get_def configureAvailableEvents_def
        fresh_def fixture_simps verify_def fixture_handler_def)

end
